theory Spec2Isabelle
  imports Complex_Main
begin

section \<open>The Bangla time announcer: tables, clock values and program state\<close>

text \<open>
  The theory embeds \<^verbatim>\<open>bangla_time_announcer.py\<close>. Python integers are \<open>int\<close>,
  strings are \<open>string\<close>, a dictionary literal is the association list of its entries in
  the order they are written, and an exception is a value of \<open>py_error\<close> returned on the
  left of a sum.
\<close>

datatype py_error = KeyError | ValueError | OverflowError | Backend_error string

text \<open>\<^verbatim>\<open>AUDIO_FILES\<close> (lines 19-48): semantic clip name to asset filename.\<close>

definition AUDIO_FILES :: "(string \<times> string) list" where
  "AUDIO_FILES =
    [(''intro'', ''ekhon_somoy.wav''),
     (''hour_1'', ''ekta.wav''),
     (''hour_2'', ''duita.wav''),
     (''hour_3'', ''tinta.wav''),
     (''hour_4'', ''charta.wav''),
     (''hour_5'', ''panchta.wav''),
     (''hour_6'', ''choyta.wav''),
     (''hour_7'', ''shatta.wav''),
     (''hour_8'', ''atta.wav''),
     (''hour_9'', ''noyta.wav''),
     (''hour_10'', ''doshta.wav''),
     (''hour_11'', ''egarota.wav''),
     (''hour_12'', ''barota.wav''),
     (''minute_15'', ''poner_minute.wav''),
     (''minute_30'', ''trish_minute.wav''),
     (''minute_45'', ''poytallish_minute.wav''),
     (''period_dawn'', ''bhor.wav''),
     (''period_morning'', ''sokal.wav''),
     (''period_noon'', ''dupur.wav''),
     (''period_evening'', ''bikal.wav''),
     (''period_dusk'', ''shondha.wav''),
     (''period_night'', ''rat.wav'')]"

text \<open>\<^verbatim>\<open>TIME_PERIODS\<close> (lines 54-69): hour of the day to the name of its period clip.\<close>

definition TIME_PERIODS :: "(int \<times> string) list" where
  "TIME_PERIODS =
    [(4, ''period_dawn''), (5, ''period_dawn''),
     (6, ''period_morning''), (7, ''period_morning''), (8, ''period_morning''),
     (9, ''period_morning''), (10, ''period_morning''), (11, ''period_morning''),
     (12, ''period_noon''), (13, ''period_noon''), (14, ''period_noon''), (15, ''period_noon''),
     (16, ''period_evening''), (17, ''period_evening''),
     (18, ''period_dusk''), (19, ''period_dusk''),
     (20, ''period_night''), (21, ''period_night''), (22, ''period_night''), (23, ''period_night''),
     (0, ''period_night''), (1, ''period_night''), (2, ''period_night''), (3, ''period_night'')]"

text \<open>
  Subscription \<^verbatim>\<open>d[k]\<close> raises \<^verbatim>\<open>KeyError\<close> on a key that is not there. Both
  literals write every key once, so the first entry \<open>map_of\<close> finds is the only one.
\<close>

definition getitem :: "('k \<times> 'v) list \<Rightarrow> 'k \<Rightarrow> py_error + 'v" where
  "getitem d k = (case map_of d k of None \<Rightarrow> Inl KeyError | Some v \<Rightarrow> Inr v)"

text \<open>\<^verbatim>\<open>d.values()\<close>: the values in insertion order.\<close>

definition dict_values :: "('k \<times> 'v) list \<Rightarrow> 'v list" where
  "dict_values d = map snd d"

text \<open>Sequencing of two steps of which the first may raise.\<close>

definition and_then :: "py_error + 'a \<Rightarrow> ('a \<Rightarrow> py_error + 'b) \<Rightarrow> py_error + 'b" where
  "and_then r f = (case r of Inl e \<Rightarrow> Inl e | Inr v \<Rightarrow> f v)"

text \<open>\<^verbatim>\<open>str(i)\<close> of an integer, as the f-strings of the program format it.\<close>

definition digit_char :: "nat \<Rightarrow> char" where
  "digit_char d = ''0123456789'' ! d"

function str_nat :: "nat \<Rightarrow> string" where
  "str_nat n = (if n < 10 then [digit_char n] else str_nat (n div 10) @ [digit_char (n mod 10)])"
  by pat_completeness auto
termination
  by (relation "measure id") auto

declare str_nat.simps [simp del]

definition str_int :: "int \<Rightarrow> string" where
  "str_int i = (if i < 0 then CHR ''-'' # str_nat (nat (- i)) else str_nat (nat i))"

text \<open>
  A naive \<^verbatim>\<open>datetime.datetime\<close>. The date is kept as its proleptic Gregorian ordinal,
  the number \<^verbatim>\<open>toordinal()\<close> returns and on which the library itself does its
  arithmetic: 1 is 0001-01-01 and \<open>MAXORDINAL\<close> is 9999-12-31, the last date the type has.
\<close>

record datetime =
  ordinal :: int
  hour :: int
  minute :: int
  second :: int
  microsecond :: int

definition MAXORDINAL :: int where
  "MAXORDINAL = 3652059"

definition valid_datetime :: "datetime \<Rightarrow> bool" where
  "valid_datetime d \<longleftrightarrow>
     1 \<le> ordinal d \<and> ordinal d \<le> MAXORDINAL \<and>
     0 \<le> hour d \<and> hour d < 24 \<and>
     0 \<le> minute d \<and> minute d < 60 \<and>
     0 \<le> second d \<and> second d < 60 \<and>
     0 \<le> microsecond d \<and> microsecond d < 1000000"

text \<open>
  What the program does to the outside, in the order it does it: a line printed, a call of
  \<^verbatim>\<open>pygame.mixer.init()\<close>, of \<^verbatim>\<open>pygame.mixer.Sound(path)\<close> with its
  \<^verbatim>\<open>play()\<close>, of \<^verbatim>\<open>pygame.time.delay(ms)\<close>, of
  \<^verbatim>\<open>subprocess.run(args)\<close> and of \<^verbatim>\<open>time.sleep(seconds)\<close>.
\<close>

datatype event =
  Print string
  | Mixer_init
  | Mixer_sound string
  | Delay int
  | Run "string list"
  | Sleep rat

text \<open>
  The state the program runs in: the wall clock \<^verbatim>\<open>datetime.datetime.now()\<close> reads, the
  global \<^verbatim>\<open>running\<close> (line 72), the paths that exist in the file system, the events so
  far, and the number of blocking calls (a sleep, the playback of a clip) made so far.
\<close>

record world =
  wall :: datetime
  running :: bool
  paths :: "string set"
  events :: "event list"
  blocks :: nat

section \<open>The resolver\<close>

text \<open>
  Lines 77-95 of \<^verbatim>\<open>get_audio_files_for_time\<close>: the rounded minute, the 12-hour value and
  the 24-hour value the announcement is built from, in this order.
\<close>

definition rounded_slot :: "datetime \<Rightarrow> int \<times> int \<times> int" where
  "rounded_slot now =
    (let hour_24 = hour now;
         hour_12 = hour now mod 12;
         hour_12 = (if hour_12 = 0 then 12 else hour_12);
         minute_now = minute now
     in if minute_now < 8 then (0, hour_12, hour_24)
        else if minute_now < 23 then (15, hour_12, hour_24)
        else if minute_now < 38 then (30, hour_12, hour_24)
        else if minute_now < 53 then (45, hour_12, hour_24)
        else (0, (hour_12 mod 12) + 1, (hour_24 + 1) mod 24))"

text \<open>
  \<^verbatim>\<open>get_audio_files_for_time\<close> (lines 74-118). It reads the clock and the two tables and
  builds a fresh list; the state is handed back as it came.
\<close>

definition get_audio_files_for_time :: "world \<Rightarrow> (py_error + string list) \<times> world" where
  "get_audio_files_for_time w =
    (let now = wall w;
         (minute_rounded, hour_12, hour_24) = rounded_slot now;
         files = []
     in (and_then (getitem AUDIO_FILES ''intro'') (\<lambda>intro.
           let files = files @ [intro] in
         and_then (getitem TIME_PERIODS hour_24) (\<lambda>period.
         and_then (getitem AUDIO_FILES period) (\<lambda>period_file.
           let files = files @ [period_file] in
         and_then (getitem AUDIO_FILES (''hour_'' @ str_int hour_12)) (\<lambda>hour_file.
           let files = files @ [hour_file] in
           if minute_rounded = 15 then
             and_then (getitem AUDIO_FILES ''minute_15'') (\<lambda>f. Inr (files @ [f]))
           else if minute_rounded = 30 then
             and_then (getitem AUDIO_FILES ''minute_30'') (\<lambda>f. Inr (files @ [f]))
           else if minute_rounded = 45 then
             and_then (getitem AUDIO_FILES ''minute_45'') (\<lambda>f. Inr (files @ [f]))
           else Inr files)))),
         w))"

section \<open>Clock arithmetic and the next announcement\<close>

text \<open>
  \<^verbatim>\<open>d.replace(minute=m, second=s, microsecond=us)\<close> builds a new value from the fields
  and raises \<^verbatim>\<open>ValueError\<close> when one of them is out of its range.
\<close>

definition replace_time :: "datetime \<Rightarrow> int \<Rightarrow> int \<Rightarrow> int \<Rightarrow> py_error + datetime" where
  "replace_time d m s us =
    (if 0 \<le> m \<and> m < 60 \<and> 0 \<le> s \<and> s < 60 \<and> 0 \<le> us \<and> us < 1000000
     then Inr (d\<lparr>minute := m, second := s, microsecond := us\<rparr>)
     else Inl ValueError)"

text \<open>
  \<^verbatim>\<open>d + datetime.timedelta(hours=n)\<close>, as the library computes it: the time of day is
  added up in seconds on top of the ordinal, whole days are carried into the ordinal, and
  a day outside 1..\<open>MAXORDINAL\<close> raises \<^verbatim>\<open>OverflowError\<close>.
\<close>

definition add_hours :: "datetime \<Rightarrow> int \<Rightarrow> py_error + datetime" where
  "add_hours d n =
    (let secs = hour d * 3600 + minute d * 60 + second d + n * 3600;
         days = ordinal d + secs div 86400;
         secs = secs mod 86400;
         h = secs div 3600;
         secs = secs mod 3600
     in if 0 < days \<and> days \<le> MAXORDINAL
        then Inr \<lparr>ordinal = days, hour = h, minute = secs div 60, second = secs mod 60,
                  microsecond = microsecond d\<rparr>
        else Inl OverflowError)"

text \<open>\<^verbatim>\<open>a < b\<close> on two clock values: the comparison of their fields, the date first.\<close>

definition datetime_less :: "datetime \<Rightarrow> datetime \<Rightarrow> bool" where
  "datetime_less a b \<longleftrightarrow>
     ordinal a < ordinal b \<or> (ordinal a = ordinal b \<and>
       (hour a < hour b \<or> (hour a = hour b \<and>
         (minute a < minute b \<or> (minute a = minute b \<and>
           (second a < second b \<or> (second a = second b \<and>
             microsecond a < microsecond b)))))))"

text \<open>
  A Python float is an IEEE 754 double, modelled by the rational it denotes. The
  functions below find the double nearest to a rational: the exponent \<open>e\<close> with
  \<open>2 ^ e \<le> x < 2 ^ (e + 1)\<close> by halving or doubling, a significand of 53 bits rounded
  to the nearest integer with ties to the even one, and no exponent below -1022. The
  seconds the program computes are far below the largest double, so the overflow to
  infinity is left out.
\<close>

definition round_half_even :: "rat \<Rightarrow> int" where
  "round_half_even x =
    (let n = \<lfloor>x\<rfloor>; r = x - of_int n
     in if r < 1 / 2 then n
        else if 1 / 2 < r then n + 1
        else if even n then n else n + 1)"

function exp_up :: "rat \<Rightarrow> int \<Rightarrow> int" where
  "exp_up x e = (if x < 2 then e else exp_up (x / 2) (e + 1))"
  by pat_completeness auto
termination
proof (relation "measure (\<lambda>(x, e). nat \<lfloor>x\<rfloor>)")
  show "wf (measure (\<lambda>(x, e). nat \<lfloor>x\<rfloor>))" by simp
next
  fix x :: rat and e :: int
  assume "\<not> x < 2"
  then have x: "2 \<le> x" by simp
  then have "x / 2 \<le> x - 1" by simp
  then have "\<lfloor>x / 2\<rfloor> \<le> \<lfloor>x - 1\<rfloor>" by (rule floor_mono)
  then have "\<lfloor>x / 2\<rfloor> < \<lfloor>x\<rfloor>" by simp
  moreover from x have "2 \<le> \<lfloor>x\<rfloor>" by (simp add: le_floor_iff)
  ultimately show "((x / 2, e + 1), (x, e)) \<in> measure (\<lambda>(x, e). nat \<lfloor>x\<rfloor>)"
    by simp
qed

function exp_down :: "rat \<Rightarrow> int \<Rightarrow> int" where
  "exp_down x e = (if x \<le> 0 \<or> 1 \<le> x then e else exp_down (x * 2) (e - 1))"
  by pat_completeness auto
termination
proof (relation "measure (\<lambda>(x, e). nat \<lfloor>1 / x\<rfloor>)")
  show "wf (measure (\<lambda>(x, e). nat \<lfloor>1 / x\<rfloor>))" by simp
next
  fix x :: rat and e :: int
  assume "\<not> (x \<le> 0 \<or> 1 \<le> x)"
  then have x: "0 < x" "x < 1" by simp_all
  then have i: "1 < 1 / x" by simp
  define y where "y = 1 / x"
  define n where "n = \<lfloor>y\<rfloor>"
  define a where "a = \<lfloor>y / 2\<rfloor>"
  from i have y1: "1 < y"
    unfolding y_def .
  then have n1: "1 \<le> n"
    unfolding n_def by (simp add: le_floor_iff)
  have "y < of_int n + 1"
    unfolding n_def by linarith
  with n1 have "y / 2 < of_int n"
    by linarith
  then have "a < n"
    unfolding a_def by (simp only: floor_less_iff)
  with n1 have "nat a < nat n"
    by simp
  moreover have "1 / (x * 2) = y / 2"
    unfolding y_def by (rule divide_divide_eq_left [symmetric])
  ultimately show "((x * 2, e - 1), (x, e)) \<in> measure (\<lambda>(x, e). nat \<lfloor>1 / x\<rfloor>)"
    unfolding a_def n_def by (simp only: in_measure case_prod_conv y_def)
qed

declare exp_up.simps [simp del] exp_down.simps [simp del]

definition pow2 :: "int \<Rightarrow> rat" where
  "pow2 e = (if 0 \<le> e then 2 ^ nat e else 1 / 2 ^ nat (- e))"

definition round_double :: "rat \<Rightarrow> rat" where
  "round_double x =
    (if x = 0 then 0
     else (let e = (if 1 \<le> \<bar>x\<bar> then exp_up \<bar>x\<bar> 0 else exp_down \<bar>x\<bar> 0);
               e = max e (- 1022);
               ulp = pow2 (e - 52)
           in of_int (round_half_even (x / ulp)) * ulp))"

text \<open>
  \<^verbatim>\<open>(a - b).total_seconds()\<close>: the difference in microseconds divided by
  \<^verbatim>\<open>10**6\<close>, a true division of two integers, which gives the double nearest to the
  quotient.
\<close>

definition total_seconds_between :: "datetime \<Rightarrow> datetime \<Rightarrow> rat" where
  "total_seconds_between a b =
     round_double
       (of_int ((((ordinal a - ordinal b) * 86400 + (hour a - hour b) * 3600 +
                  (minute a - minute b) * 60 + (second a - second b)) * 1000000) +
                (microsecond a - microsecond b)) / 1000000)"

text \<open>
  Lines 234-249 of \<^verbatim>\<open>run_announcer\<close>: the time of the next announcement, from the
  clock reading \<open>now\<close> and the configured interval.
\<close>

definition next_time :: "datetime \<Rightarrow> int \<Rightarrow> py_error + datetime" where
  "next_time now interval =
    (if interval = 15 then
       (let next_minute = (minute now div 15 + 1) * 15
        in if next_minute = 60
           then and_then (replace_time now 0 0 0) (\<lambda>d. add_hours d 1)
           else replace_time now next_minute 0 0)
     else if interval = 30 then
       (if minute now < 30
        then replace_time now 30 0 0
        else and_then (replace_time now 0 0 0) (\<lambda>d. add_hours d 1))
     else and_then (replace_time now 0 0 0) (\<lambda>d. add_hours d 1))"

section \<open>The environment and the effects\<close>

text \<open>
  What pygame does with the path of a clip that exists: a call in the \<^verbatim>\<open>try\<close> block
  raises an \<^verbatim>\<open>Exception\<close> with the given message, or the clip plays and the mixer
  answers \<^verbatim>\<open>get_busy()\<close> with true the given number of times before it is done.
\<close>

datatype sound_outcome = Sound_raises string | Sound_plays nat

text \<open>
  What the program finds around it and cannot change: the audio directory
  (\<^verbatim>\<open>os.path.expanduser("~/time_announcer_audio")\<close>, line 51), whether the import of
  pygame succeeded (lines 11-15), whether running \<^verbatim>\<open>aplay --version\<close> raises, the message
  with which \<^verbatim>\<open>os.makedirs\<close> and \<^verbatim>\<open>pygame.mixer.init\<close> raise if they do, what each
  backend does with a path, the rendering of a clock value by the format
  \<^verbatim>\<open>%Y-%m-%d %H:%M:%S\<close>, and for the k-th blocking call (a sleep or the playback of a clip)
  the wall clock at its end and whether SIGINT arrived while it lasted. Time passes and
  signals arrive during blocking calls only.
\<close>

record env =
  AUDIO_DIR :: string
  PYGAME_AVAILABLE :: bool
  aplay_probe_raises :: bool
  makedirs_raises :: "string option"
  mixer_init_raises :: "string option"
  pygame_sound :: "string \<Rightarrow> sound_outcome"
  aplay_raises :: "string \<Rightarrow> string option"
  strftime :: "datetime \<Rightarrow> string"
  after_block :: "nat \<Rightarrow> datetime \<times> bool"

definition put :: "event \<Rightarrow> world \<Rightarrow> world" where
  "put ev w = w\<lparr>events := events w @ [ev]\<rparr>"

text \<open>\<^verbatim>\<open>signal_handler\<close> (lines 164-168), installed for SIGINT on line 204.\<close>

definition signal_handler :: "world \<Rightarrow> world" where
  "signal_handler w =
    (let w = put (Print (CHR 0x0A # ''Stopping Bangla Time Announcer...'')) w
     in w\<lparr>running := False\<rparr>)"

text \<open>The end of a blocking call: the clock has moved on, and SIGINT may have come.\<close>

definition elapse :: "env \<Rightarrow> world \<Rightarrow> world" where
  "elapse e w =
    (let (clock, sigint) = after_block e (blocks w);
         w = w\<lparr>wall := clock, blocks := Suc (blocks w)\<rparr>
     in if sigint then signal_handler w else w)"

text \<open>\<^verbatim>\<open>os.path.join(a, b)\<close> on a POSIX system.\<close>

definition path_join :: "string \<Rightarrow> string \<Rightarrow> string" where
  "path_join a b =
    (if take 1 b = ''/'' then b
     else if a = [] \<or> last a = CHR ''/'' then a @ b
     else a @ ''/'' @ b)"

section \<open>Playback\<close>

text \<open>\<^verbatim>\<open>while pygame.mixer.get_busy(): pygame.time.delay(100)\<close> (lines 134-135).\<close>

fun busy_wait :: "nat \<Rightarrow> world \<Rightarrow> world" where
  "busy_wait 0 w = w"
| "busy_wait (Suc n) w = busy_wait n (put (Delay 100) w)"

text \<open>The body of the loop of \<^verbatim>\<open>play_audio_sequence_pygame\<close> (lines 125-137).\<close>

definition play_clip_pygame :: "env \<Rightarrow> string \<Rightarrow> world \<Rightarrow> world" where
  "play_clip_pygame e audio_file w =
    (let full_path = path_join (AUDIO_DIR e) audio_file
     in if full_path \<notin> paths w
        then put (Print (''Warning: Audio file not found: '' @ full_path)) w
        else
          (let w = put (Mixer_sound full_path) w
           in case pygame_sound e full_path of
                Sound_plays n \<Rightarrow> elapse e (busy_wait n w)
              | Sound_raises msg \<Rightarrow>
                  put (Print (''Error playing audio file '' @ audio_file @ '': '' @ msg)) w))"

text \<open>
  \<^verbatim>\<open>play_audio_sequence_pygame\<close> (lines 120-137). The call of
  \<^verbatim>\<open>pygame.mixer.init()\<close> stands outside the \<^verbatim>\<open>try\<close>: when it raises, the function
  raises.
\<close>

definition play_audio_sequence_pygame ::
    "env \<Rightarrow> string list \<Rightarrow> world \<Rightarrow> (py_error + unit) \<times> world" where
  "play_audio_sequence_pygame e audio_files w =
    (let w = put Mixer_init w
     in case mixer_init_raises e of
          Some msg \<Rightarrow> (Inl (Backend_error msg), w)
        | None \<Rightarrow> (Inr (), fold (play_clip_pygame e) audio_files w))"

text \<open>The body of the loop of \<^verbatim>\<open>play_audio_sequence_aplay\<close> (lines 142-150).\<close>

definition play_clip_aplay :: "env \<Rightarrow> string \<Rightarrow> world \<Rightarrow> world" where
  "play_clip_aplay e audio_file w =
    (let full_path = path_join (AUDIO_DIR e) audio_file
     in if full_path \<notin> paths w
        then put (Print (''Warning: Audio file not found: '' @ full_path)) w
        else
          (let w = put (Run [''aplay'', full_path]) w
           in case aplay_raises e full_path of
                None \<Rightarrow> elapse e w
              | Some msg \<Rightarrow>
                  put (Print (''Error playing audio file '' @ audio_file @ '': '' @ msg)) w))"

text \<open>\<^verbatim>\<open>play_audio_sequence_aplay\<close> (lines 139-150).\<close>

definition play_audio_sequence_aplay :: "env \<Rightarrow> string list \<Rightarrow> world \<Rightarrow> world" where
  "play_audio_sequence_aplay e audio_files w = fold (play_clip_aplay e) audio_files w"

text \<open>\<^verbatim>\<open>announce_time\<close> (lines 152-162).\<close>

definition announce_time :: "env \<Rightarrow> world \<Rightarrow> (py_error + unit) \<times> world" where
  "announce_time e w =
    (let now = wall w;
         w = put (Print (''['' @ strftime e now @ ''] Announcing time...'')) w;
         (r, w) = get_audio_files_for_time w
     in case r of
          Inl err \<Rightarrow> (Inl err, w)
        | Inr audio_files \<Rightarrow>
            if PYGAME_AVAILABLE e
            then play_audio_sequence_pygame e audio_files w
            else (Inr (), play_audio_sequence_aplay e audio_files w))"

section \<open>Startup and the scheduling loop\<close>

text \<open>
  The loop of \<^verbatim>\<open>check_audio_files\<close> (lines 182-185): the filenames of the clip table
  that have no file in the audio directory, in the order of the table.
\<close>

definition missing_in_dir :: "env \<Rightarrow> world \<Rightarrow> string list" where
  "missing_in_dir e w =
    fold (\<lambda>file_name missing_files.
            if path_join (AUDIO_DIR e) file_name \<notin> paths w
            then missing_files @ [file_name] else missing_files)
      (dict_values AUDIO_FILES) []"

text \<open>
  \<^verbatim>\<open>check_audio_files\<close> (lines 170-187). A directory that is not there is created; when
  that fails every file of the table is reported missing.
\<close>

definition check_audio_files :: "env \<Rightarrow> world \<Rightarrow> string list \<times> world" where
  "check_audio_files e w =
    (if AUDIO_DIR e \<notin> paths w
     then (case makedirs_raises e of
             None \<Rightarrow>
               (let w = w\<lparr>paths := insert (AUDIO_DIR e) (paths w)\<rparr>;
                    w = put (Print (''Created audio directory: '' @ AUDIO_DIR e)) w
                in (missing_in_dir e w, w))
           | Some msg \<Rightarrow>
               (dict_values AUDIO_FILES,
                put (Print (''Error creating audio directory: '' @ msg)) w))
     else (missing_in_dir e w, w))"

text \<open>
  Lines 194-201 of \<^verbatim>\<open>run_announcer\<close>: the search for a backend. The result is false
  when the function returns on line 201.
\<close>

definition probe_backend :: "env \<Rightarrow> world \<Rightarrow> bool \<times> world" where
  "probe_backend e w =
    (if \<not> PYGAME_AVAILABLE e
     then (let w = put (Print ''Warning: pygame not found, trying to use aplay instead.'') w;
               w = put (Run [''aplay'', ''--version'']) w
           in if aplay_probe_raises e
              then (False,
                    put (Print (''Please install pygame (pip install pygame) or aplay '' @
                                ''(alsa-utils package).''))
                      (put (Print (''Error: Neither pygame nor aplay is available. '' @
                                   ''Cannot play audio.'')) w))
              else (True, w))
     else (True, w))"

text \<open>Lines 209-214 of \<^verbatim>\<open>run_announcer\<close>: the report of the missing files.\<close>

definition report_missing :: "env \<Rightarrow> string list \<Rightarrow> world \<Rightarrow> world" where
  "report_missing e missing_files w =
    (let w = put (Print (''Missing '' @ str_int (int (length missing_files)) @
                         '' audio files in '' @ AUDIO_DIR e @ '':'')) w;
         w = fold (\<lambda>file. put (Print (''  - '' @ file))) (take 10 missing_files) w;
         w = (if length missing_files > 10
              then put (Print (''  ... and '' @ str_int (int (length missing_files) - 10) @
                               '' more.'')) w
              else w)
     in put (Print (CHR 0x0A # ''Please add these files to continue.'')) w)"

text \<open>
  The inner loop of \<^verbatim>\<open>run_announcer\<close> (lines 254-260): the wait in chunks. The
  subtraction is the one of doubles. That the rest of the wait goes down to 0 depends on
  its size (a double beyond \<open>2 ^ 54\<close> is not changed by subtracting 10), so the second
  argument bounds the number of chunks; the result is the state reached and whether the
  loop has ended within the bound.
\<close>

fun wait_loop :: "env \<Rightarrow> nat \<Rightarrow> rat \<Rightarrow> world \<Rightarrow> bool \<times> world" where
  "wait_loop e 0 wait_seconds w = (\<not> (wait_seconds > 0 \<and> running w), w)"
| "wait_loop e (Suc n) wait_seconds w =
    (if wait_seconds > 0 \<and> running w
     then (let sleep_time = min wait_seconds 10;
               w1 = elapse e (put (Sleep sleep_time) w);
               remaining = round_double (wait_seconds - sleep_time)
           in if \<not> running w1 then (True, w1) else wait_loop e n remaining w1)
     else (True, w))"

declare wait_loop.simps [simp del]

text \<open>
  The main loop of \<^verbatim>\<open>run_announcer\<close> (lines 230-264). It runs until the flag is cleared
  or an exception leaves it, which may be never: the third argument bounds the number of
  rounds, and of chunks in the wait of a round, and the result is \<open>None\<close> when a loop is
  still running at its bound.
\<close>

fun main_loop :: "env \<Rightarrow> int \<Rightarrow> nat \<Rightarrow> world \<Rightarrow> ((py_error + unit) \<times> world) option" where
  "main_loop e interval fuel w =
    (if \<not> running w then Some (Inr (), w)
     else case fuel of
       0 \<Rightarrow> None
     | Suc n \<Rightarrow>
        (let now = wall w
         in case next_time now interval of
              Inl err \<Rightarrow> Some (Inl err, w)
            | Inr nt \<Rightarrow>
               (let wait_seconds = total_seconds_between nt now
                in case wait_loop e fuel wait_seconds w of
                     (False, w) \<Rightarrow> None
                   | (True, w) \<Rightarrow>
                       if running w
                       then (case announce_time e w of
                               (Inl err, w) \<Rightarrow> Some (Inl err, w)
                             | (Inr u, w) \<Rightarrow> main_loop e interval n w)
                       else main_loop e interval n w)))"

declare main_loop.simps [simp del]

text \<open>\<^verbatim>\<open>run_announcer\<close> (lines 189-264).\<close>

definition run_announcer ::
    "env \<Rightarrow> int \<Rightarrow> bool \<Rightarrow> nat \<Rightarrow> world \<Rightarrow> ((py_error + unit) \<times> world) option" where
  "run_announcer e interval test_only fuel w =
    (let (backend_found, w) = probe_backend e w
     in if \<not> backend_found then Some (Inr (), w)
        else
          (let (missing_files, w) = check_audio_files e w
           in if missing_files \<noteq> [] then Some (Inr (), report_missing e missing_files w)
              else if test_only then Some (announce_time e w)
              else
                (let w = put (Print (''Bangla Time Announcer started (announcing every '' @
                                     str_int interval @ '' minutes)'')) w;
                     w = put (Print (''Audio files directory: '' @ AUDIO_DIR e)) w;
                     w = put (Print ''Press Ctrl+C to stop'') w
                 in case announce_time e w of
                      (Inl err, w) \<Rightarrow> Some (Inl err, w)
                    | (Inr u, w) \<Rightarrow> main_loop e interval fuel w)))"


section \<open>Facts about the tables\<close>

lemma getitem_intro: "getitem AUDIO_FILES ''intro'' = Inr ''ekhon_somoy.wav''"
  by (simp add: getitem_def AUDIO_FILES_def)

lemma getitem_minute:
  "getitem AUDIO_FILES ''minute_15'' = Inr ''poner_minute.wav''"
  "getitem AUDIO_FILES ''minute_30'' = Inr ''trish_minute.wav''"
  "getitem AUDIO_FILES ''minute_45'' = Inr ''poytallish_minute.wav''"
  by (simp_all add: getitem_def AUDIO_FILES_def)

lemma getitem_key: "getitem d k = Inr v \<Longrightarrow> k \<in> fst ` set d \<and> v \<in> set (dict_values d)"
  by (auto simp add: getitem_def dict_values_def split: option.splits
      dest: map_of_SomeD intro: rev_image_eqI)

lemma hour_cases: "1 \<le> (h::int) \<Longrightarrow> h \<le> 12 \<Longrightarrow> h \<in> {1,2,3,4,5,6,7,8,9,10,11,12}"
  by simp arith

lemma period_cases:
  "0 \<le> (h::int) \<Longrightarrow> h < 24 \<Longrightarrow>
   h \<in> {0,1,2,3,4,5,6,7,8,9,10,11,12,13,14,15,16,17,18,19,20,21,22,23}"
  by simp arith

lemma str_int_small:
  "str_int 1 = ''1''" "str_int 2 = ''2''" "str_int 3 = ''3''" "str_int 4 = ''4''"
  "str_int 5 = ''5''" "str_int 6 = ''6''" "str_int 7 = ''7''" "str_int 8 = ''8''"
  "str_int 9 = ''9''" "str_int 10 = ''10''" "str_int 11 = ''11''" "str_int 12 = ''12''"
  by (simp_all add: str_int_def str_nat.simps digit_char_def)

lemma getitem_hour:
  assumes "1 \<le> h" "h \<le> 12"
  shows "\<exists>f. getitem AUDIO_FILES (''hour_'' @ str_int h) = Inr f \<and>
             f \<in> set (dict_values AUDIO_FILES)"
proof -
  from assms have "h \<in> {1,2,3,4,5,6,7,8,9,10,11,12}" by (rule hour_cases)
  then show ?thesis
    by (elim insertE emptyE)
      (simp_all add: str_int_small getitem_def AUDIO_FILES_def dict_values_def)
qed

lemma getitem_period:
  assumes "0 \<le> h" "h < 24"
  shows "\<exists>p f. getitem TIME_PERIODS h = Inr p \<and> getitem AUDIO_FILES p = Inr f \<and>
               f \<in> set (dict_values AUDIO_FILES)"
proof -
  from assms have "h \<in> {0,1,2,3,4,5,6,7,8,9,10,11,12,13,14,15,16,17,18,19,20,21,22,23}"
    by (rule period_cases)
  then show ?thesis
    by (elim insertE emptyE)
      (simp_all add: getitem_def AUDIO_FILES_def TIME_PERIODS_def dict_values_def)
qed

text \<open>
  C3. The hour-to-period table has each of the hours 0..23 as a key exactly once (its keys
  are pairwise distinct and are the set 0..23), and the periods it uses are exactly the six
  periods dawn, morning, noon, evening, dusk and night.
\<close>

theorem time_periods_cover_day:
  "distinct (map fst TIME_PERIODS) \<and>
   fst ` set TIME_PERIODS = {0..23} \<and>
   snd ` set TIME_PERIODS =
     {''period_dawn'', ''period_morning'', ''period_noon'', ''period_evening'', ''period_dusk'',
      ''period_night''} \<and>
   card (snd ` set TIME_PERIODS) = 6"
proof -
  have d: "distinct (map fst TIME_PERIODS)"
    by (simp add: TIME_PERIODS_def)
  have k: "fst ` set TIME_PERIODS = {0..23}"
  proof
    show "fst ` set TIME_PERIODS \<subseteq> {0..23}"
      by (simp add: TIME_PERIODS_def)
    show "{0..23} \<subseteq> fst ` set TIME_PERIODS"
    proof
      fix h :: int
      assume "h \<in> {0..23}"
      then have "0 \<le> h" "h < 24" by simp_all
      then have "h \<in> {0,1,2,3,4,5,6,7,8,9,10,11,12,13,14,15,16,17,18,19,20,21,22,23}"
        by (rule period_cases)
      then show "h \<in> fst ` set TIME_PERIODS"
        by (elim insertE emptyE) (simp_all add: TIME_PERIODS_def)
    qed
  qed
  have v: "snd ` set TIME_PERIODS =
     {''period_dawn'', ''period_morning'', ''period_noon'', ''period_evening'', ''period_dusk'',
      ''period_night''}"
    by (auto simp add: TIME_PERIODS_def)
  have c: "card (snd ` set TIME_PERIODS) = 6"
    by (simp add: v)
  from d k v c show ?thesis by blast
qed

section \<open>The rounded slot\<close>

lemma twelve_of_range:
  "0 \<le> (r::int) \<Longrightarrow> r < 12 \<Longrightarrow>
   1 \<le> (if r = 0 then 12 else r) \<and> (if r = 0 then 12 else r) \<le> 12"
  by auto

lemma h12_range:
  "1 \<le> (if (h::int) mod 12 = 0 then 12 else h mod 12) \<and>
   (if h mod 12 = 0 then 12 else h mod 12) \<le> 12"
  by (rule twelve_of_range) simp_all

lemma h12_next_range: "1 \<le> (x::int) mod 12 + 1 \<and> x mod 12 + 1 \<le> 12"
proof -
  have "0 \<le> x mod 12" "x mod 12 < 12" by simp_all
  then show ?thesis by linarith
qed

lemma rounded_slot_range:
  assumes "valid_datetime now" and "rounded_slot now = (mr, h12, h24)"
  shows "mr \<in> {0, 15, 30, 45} \<and> 1 \<le> h12 \<and> h12 \<le> 12 \<and> 0 \<le> h24 \<and> h24 < 24"
proof -
  have h: "0 \<le> hour now" "hour now < 24"
    using assms(1) by (simp_all add: valid_datetime_def)
  have m24: "0 \<le> (hour now + 1) mod 24" "(hour now + 1) mod 24 < 24" by simp_all
  show ?thesis
  proof (cases "minute now < 53")
    case True
    with assms(2) have "mr \<in> {0, 15, 30, 45}"
      and "h12 = (if hour now mod 12 = 0 then 12 else hour now mod 12)"
      and "h24 = hour now"
      by (auto simp add: rounded_slot_def Let_def split: if_splits)
    with h h12_range [of "hour now"] show ?thesis by simp
  next
    case False
    with assms(2) have "mr = 0"
      and "h12 = (if hour now mod 12 = 0 then 12 else hour now mod 12) mod 12 + 1"
      and "h24 = (hour now + 1) mod 24"
      by (auto simp add: rounded_slot_def Let_def split: if_splits)
    with m24 h12_next_range [of "if hour now mod 12 = 0 then 12 else hour now mod 12"]
    show ?thesis by simp
  qed
qed

lemma next_h12_consistent:
  assumes "0 \<le> (h::int)" "h < 24"
  shows "(if h mod 12 = 0 then 12 else h mod 12) mod 12 + 1 =
         (if ((h + 1) mod 24) mod 12 = 0 then 12 else ((h + 1) mod 24) mod 12)"
proof -
  from assms have "h \<in> {0,1,2,3,4,5,6,7,8,9,10,11,12,13,14,15,16,17,18,19,20,21,22,23}"
    by (rule period_cases)
  then show ?thesis
    by (elim insertE emptyE) simp_all
qed

lemma next_h12_wrap:
  assumes "1 \<le> (k::int)" "k \<le> 12"
  shows "k mod 12 + 1 = (if k = 12 then 1 else k + 1)"
proof -
  from assms have "k \<in> {1,2,3,4,5,6,7,8,9,10,11,12}" by (rule hour_cases)
  then show ?thesis
    by (elim insertE emptyE) simp_all
qed

text \<open>
  C1. For a minute of the hour in 0..59 the rounded slot follows the bands: below 8 the
  bucket is 0, from 8 below 23 it is 15, from 23 below 38 it is 30, from 38 below 53 it is
  45, each with the 12-hour and the 24-hour value of the clock unchanged; from 53 on the
  bucket is 0 and the hour is advanced by one: the 24-hour value is the next hour modulo 24,
  and (for an hour in 0..23) the 12-hour value is the 12-hour reading of that next hour.
\<close>

theorem minute_rounding_bands:
  assumes "0 \<le> minute now" and "minute now < 60"
  shows "(minute now < 8 \<longrightarrow>
            rounded_slot now = (0, if hour now mod 12 = 0 then 12 else hour now mod 12, hour now)) \<and>
         (8 \<le> minute now \<and> minute now < 23 \<longrightarrow>
            rounded_slot now = (15, if hour now mod 12 = 0 then 12 else hour now mod 12, hour now)) \<and>
         (23 \<le> minute now \<and> minute now < 38 \<longrightarrow>
            rounded_slot now = (30, if hour now mod 12 = 0 then 12 else hour now mod 12, hour now)) \<and>
         (38 \<le> minute now \<and> minute now < 53 \<longrightarrow>
            rounded_slot now = (45, if hour now mod 12 = 0 then 12 else hour now mod 12, hour now)) \<and>
         (53 \<le> minute now \<longrightarrow>
            fst (rounded_slot now) = 0 \<and> snd (snd (rounded_slot now)) = (hour now + 1) mod 24 \<and>
            (0 \<le> hour now \<and> hour now < 24 \<longrightarrow>
               fst (snd (rounded_slot now)) =
                 (if ((hour now + 1) mod 24) mod 12 = 0 then 12 else ((hour now + 1) mod 24) mod 12)))"
proof (intro conjI impI)
  assume "minute now < 8"
  then show "rounded_slot now = (0, if hour now mod 12 = 0 then 12 else hour now mod 12, hour now)"
    by (simp add: rounded_slot_def Let_def)
next
  assume "8 \<le> minute now \<and> minute now < 23"
  then show "rounded_slot now = (15, if hour now mod 12 = 0 then 12 else hour now mod 12, hour now)"
    by (simp add: rounded_slot_def Let_def)
next
  assume "23 \<le> minute now \<and> minute now < 38"
  then show "rounded_slot now = (30, if hour now mod 12 = 0 then 12 else hour now mod 12, hour now)"
    by (simp add: rounded_slot_def Let_def)
next
  assume "38 \<le> minute now \<and> minute now < 53"
  then show "rounded_slot now = (45, if hour now mod 12 = 0 then 12 else hour now mod 12, hour now)"
    by (simp add: rounded_slot_def Let_def)
next
  assume "53 \<le> minute now"
  then show "fst (rounded_slot now) = 0"
    by (simp add: rounded_slot_def Let_def)
next
  assume "53 \<le> minute now"
  then show "snd (snd (rounded_slot now)) = (hour now + 1) mod 24"
    by (simp add: rounded_slot_def Let_def)
next
  assume m: "53 \<le> minute now" and h: "0 \<le> hour now \<and> hour now < 24"
  from m have "fst (snd (rounded_slot now)) =
      (if hour now mod 12 = 0 then 12 else hour now mod 12) mod 12 + 1"
    by (simp add: rounded_slot_def Let_def)
  also from h have "\<dots> =
      (if ((hour now + 1) mod 24) mod 12 = 0 then 12 else ((hour now + 1) mod 24) mod 12)"
    by (intro next_h12_consistent) simp_all
  finally show "fst (snd (rounded_slot now)) =
      (if ((hour now + 1) mod 24) mod 12 = 0 then 12 else ((hour now + 1) mod 24) mod 12)" .
qed

theorem minute_rounding_bands_witness:
  "rounded_slot \<lparr>ordinal = 738000, hour = 7, minute = 10, second = 0, microsecond = 0\<rparr> = (15, 7, 7) \<and>
   rounded_slot \<lparr>ordinal = 738000, hour = 11, minute = 53, second = 0, microsecond = 0\<rparr> = (0, 12, 12)"
  using minute_rounding_bands
      [of "\<lparr>ordinal = 738000, hour = 7, minute = 10, second = 0, microsecond = 0\<rparr>"]
    minute_rounding_bands
      [of "\<lparr>ordinal = 738000, hour = 11, minute = 53, second = 0, microsecond = 0\<rparr>"]
  by (simp add: prod_eq_iff)

section \<open>The clip sequence\<close>

lemma resolver_unfold:
  assumes "rounded_slot (wall w) = (mr, h12, h24)"
    and "getitem AUDIO_FILES ''intro'' = Inr fi"
    and "getitem TIME_PERIODS h24 = Inr p"
    and "getitem AUDIO_FILES p = Inr pf"
    and "getitem AUDIO_FILES (''hour_'' @ str_int h12) = Inr hf"
  shows "fst (get_audio_files_for_time w) =
    (if mr = 15 then Inr [fi, pf, hf, ''poner_minute.wav'']
     else if mr = 30 then Inr [fi, pf, hf, ''trish_minute.wav'']
     else if mr = 45 then Inr [fi, pf, hf, ''poytallish_minute.wav'']
     else Inr [fi, pf, hf])"
  using assms
  by (simp add: get_audio_files_for_time_def and_then_def getitem_minute Let_def)

lemma resolver_lookups:
  assumes "valid_datetime (wall w)" and "rounded_slot (wall w) = (mr, h12, h24)"
  shows "\<exists>fi p pf hf.
           getitem AUDIO_FILES ''intro'' = Inr fi \<and> getitem TIME_PERIODS h24 = Inr p \<and>
           getitem AUDIO_FILES p = Inr pf \<and> getitem AUDIO_FILES (''hour_'' @ str_int h12) = Inr hf \<and>
           {fi, pf, hf} \<subseteq> set (dict_values AUDIO_FILES) \<and>
           fst (get_audio_files_for_time w) =
             (if mr = 15 then Inr [fi, pf, hf, ''poner_minute.wav'']
              else if mr = 30 then Inr [fi, pf, hf, ''trish_minute.wav'']
              else if mr = 45 then Inr [fi, pf, hf, ''poytallish_minute.wav'']
              else Inr [fi, pf, hf])"
proof -
  from rounded_slot_range [OF assms]
  have r: "1 \<le> h12" "h12 \<le> 12" "0 \<le> h24" "h24 < 24" by simp_all
  from getitem_period [OF r(3,4)] obtain p pf
    where p: "getitem TIME_PERIODS h24 = Inr p" "getitem AUDIO_FILES p = Inr pf"
      "pf \<in> set (dict_values AUDIO_FILES)" by blast
  from getitem_hour [OF r(1,2)] obtain hf
    where hf: "getitem AUDIO_FILES (''hour_'' @ str_int h12) = Inr hf"
      "hf \<in> set (dict_values AUDIO_FILES)" by blast
  have fi: "''ekhon_somoy.wav'' \<in> set (dict_values AUDIO_FILES)"
    by (simp add: dict_values_def AUDIO_FILES_def)
  from resolver_unfold [OF assms(2) getitem_intro p(1,2) hf(1)] p hf fi getitem_intro
  show ?thesis by blast
qed

text \<open>
  C2. With the minute in 53..59 the slot has bucket 0, the 12-hour value incremented with
  the wrap-around from 12 to 1, and the 24-hour value incremented modulo 24 (23 goes to 0);
  the period is looked up at the incremented 24-hour value, and the sequence is the intro
  clip, that period's clip and the clip of the incremented 12-hour value, with no minute
  clip. At 23:55 the slot is (0, 12, 0) and the sequence is the clips of intro, period_night
  and hour_12.
\<close>

theorem rollover_advances_hours:
  assumes "valid_datetime (wall w)" and "53 \<le> minute (wall w)"
  shows "rounded_slot (wall w) =
           (0,
            (let hour_12 = (if hour (wall w) mod 12 = 0 then 12 else hour (wall w) mod 12)
             in if hour_12 = 12 then 1 else hour_12 + 1),
            (hour (wall w) + 1) mod 24) \<and>
         (hour (wall w) + 1) mod 24 = (if hour (wall w) = 23 then 0 else hour (wall w) + 1) \<and>
         (\<exists>intro period period_clip hour_clip.
            getitem AUDIO_FILES ''intro'' = Inr intro \<and>
            getitem TIME_PERIODS ((hour (wall w) + 1) mod 24) = Inr period \<and>
            getitem AUDIO_FILES period = Inr period_clip \<and>
            getitem AUDIO_FILES (''hour_'' @ str_int (fst (snd (rounded_slot (wall w))))) =
              Inr hour_clip \<and>
            fst (get_audio_files_for_time w) = Inr [intro, period_clip, hour_clip]) \<and>
         (hour (wall w) = 23 \<and> minute (wall w) = 55 \<longrightarrow>
            rounded_slot (wall w) = (0, 12, 0) \<and>
            getitem TIME_PERIODS 0 = Inr ''period_night'' \<and>
            fst (get_audio_files_for_time w) =
              Inr [''ekhon_somoy.wav'', ''rat.wav'', ''barota.wav''] \<and>
            [getitem AUDIO_FILES ''intro'', getitem AUDIO_FILES ''period_night'',
             getitem AUDIO_FILES ''hour_12''] =
              [Inr ''ekhon_somoy.wav'', Inr ''rat.wav'', Inr ''barota.wav''])"
proof -
  let ?h = "hour (wall w)"
  let ?h12 = "if ?h mod 12 = 0 then 12 else ?h mod 12"
  have h: "0 \<le> ?h" "?h < 24"
    using assms(1) by (simp_all add: valid_datetime_def)
  have slot0: "rounded_slot (wall w) = (0, ?h12 mod 12 + 1, (?h + 1) mod 24)"
    using assms(2) by (simp add: rounded_slot_def Let_def)
  have wrap: "?h12 mod 12 + 1 = (if ?h12 = 12 then 1 else ?h12 + 1)"
    using h12_range [of ?h] by (intro next_h12_wrap) simp_all
  have slot: "rounded_slot (wall w) = (0, (if ?h12 = 12 then 1 else ?h12 + 1), (?h + 1) mod 24)"
    using slot0 wrap by simp
  have c1: "rounded_slot (wall w) =
           (0, (let hour_12 = ?h12 in if hour_12 = 12 then 1 else hour_12 + 1), (?h + 1) mod 24)"
    using slot by (simp add: Let_def)
  have c2: "(?h + 1) mod 24 = (if ?h = 23 then 0 else ?h + 1)"
    using h by simp
  from resolver_lookups [OF assms(1) slot] obtain fi p pf hf where
    l: "getitem AUDIO_FILES ''intro'' = Inr fi" "getitem TIME_PERIODS ((?h + 1) mod 24) = Inr p"
       "getitem AUDIO_FILES p = Inr pf"
       "getitem AUDIO_FILES (''hour_'' @ str_int (if ?h12 = 12 then 1 else ?h12 + 1)) = Inr hf"
    and res: "fst (get_audio_files_for_time w) = Inr [fi, pf, hf]"
    by auto
  have c3: "\<exists>intro period period_clip hour_clip.
            getitem AUDIO_FILES ''intro'' = Inr intro \<and>
            getitem TIME_PERIODS ((?h + 1) mod 24) = Inr period \<and>
            getitem AUDIO_FILES period = Inr period_clip \<and>
            getitem AUDIO_FILES (''hour_'' @ str_int (fst (snd (rounded_slot (wall w))))) =
              Inr hour_clip \<and>
            fst (get_audio_files_for_time w) = Inr [intro, period_clip, hour_clip]"
    using l res by (simp only: slot fst_conv snd_conv) blast
  have c4: "?h = 23 \<and> minute (wall w) = 55 \<longrightarrow>
            rounded_slot (wall w) = (0, 12, 0) \<and>
            getitem TIME_PERIODS 0 = Inr ''period_night'' \<and>
            fst (get_audio_files_for_time w) =
              Inr [''ekhon_somoy.wav'', ''rat.wav'', ''barota.wav''] \<and>
            [getitem AUDIO_FILES ''intro'', getitem AUDIO_FILES ''period_night'',
             getitem AUDIO_FILES ''hour_12''] =
              [Inr ''ekhon_somoy.wav'', Inr ''rat.wav'', Inr ''barota.wav'']"
  proof
    assume a: "?h = 23 \<and> minute (wall w) = 55"
    then have s: "rounded_slot (wall w) = (0, 12, 0)"
      by (simp add: rounded_slot_def Let_def)
    have g: "getitem TIME_PERIODS 0 = Inr ''period_night''"
      "getitem AUDIO_FILES ''period_night'' = Inr ''rat.wav''"
      "getitem AUDIO_FILES (''hour_'' @ str_int 12) = Inr ''barota.wav''"
      "getitem AUDIO_FILES ''hour_12'' = Inr ''barota.wav''"
      by (simp_all add: getitem_def TIME_PERIODS_def AUDIO_FILES_def str_int_small)
    from resolver_unfold [OF s getitem_intro g(1,2,3)]
    have "fst (get_audio_files_for_time w) = Inr [''ekhon_somoy.wav'', ''rat.wav'', ''barota.wav'']"
      by simp
    with s g getitem_intro show "rounded_slot (wall w) = (0, 12, 0) \<and>
            getitem TIME_PERIODS 0 = Inr ''period_night'' \<and>
            fst (get_audio_files_for_time w) =
              Inr [''ekhon_somoy.wav'', ''rat.wav'', ''barota.wav''] \<and>
            [getitem AUDIO_FILES ''intro'', getitem AUDIO_FILES ''period_night'',
             getitem AUDIO_FILES ''hour_12''] =
              [Inr ''ekhon_somoy.wav'', Inr ''rat.wav'', Inr ''barota.wav'']"
      by simp
  qed
  from c1 c2 c3 c4 show ?thesis by (intro conjI)
qed

theorem rollover_advances_hours_witness:
  "valid_datetime \<lparr>ordinal = 738000, hour = 23, minute = 55, second = 0, microsecond = 0\<rparr> \<and>
   rounded_slot \<lparr>ordinal = 738000, hour = 23, minute = 55, second = 0, microsecond = 0\<rparr> = (0, 12, 0) \<and>
   fst (get_audio_files_for_time
     \<lparr>wall = \<lparr>ordinal = 738000, hour = 23, minute = 55, second = 0, microsecond = 0\<rparr>,
      running = True, paths = {}, events = [], blocks = 0\<rparr>) =
     Inr [''ekhon_somoy.wav'', ''rat.wav'', ''barota.wav'']"
  using rollover_advances_hours [of "\<lparr>wall = \<lparr>ordinal = 738000, hour = 23, minute = 55, second = 0, microsecond = 0\<rparr>,
      running = True, paths = {}, events = [], blocks = 0\<rparr>"]
  by (simp add: valid_datetime_def MAXORDINAL_def)

text \<open>
  C4. For a valid clock reading every lookup of the resolver succeeds and the sequence is
  the intro clip, the period clip and the hour clip, in this order, when the rounded minute
  is 0, and these three followed by the minute clip named by the bucket when the rounded
  minute is 15, 30 or 45; no other bucket occurs. So the sequence has three clips exactly
  when the rounded minute is 0 and four otherwise.
\<close>

theorem clip_sequence_shape:
  assumes "valid_datetime (wall w)"
    and "rounded_slot (wall w) = (minute_rounded, hour_12, hour_24)"
  shows "\<exists>intro period period_clip hour_clip files.
           getitem AUDIO_FILES ''intro'' = Inr intro \<and>
           getitem TIME_PERIODS hour_24 = Inr period \<and>
           getitem AUDIO_FILES period = Inr period_clip \<and>
           getitem AUDIO_FILES (''hour_'' @ str_int hour_12) = Inr hour_clip \<and>
           fst (get_audio_files_for_time w) = Inr files \<and>
           length files = (if minute_rounded = 0 then 3 else 4) \<and>
           (if minute_rounded = 0
            then files = [intro, period_clip, hour_clip]
            else minute_rounded \<in> {15, 30, 45} \<and>
              (\<exists>minute_clip.
                 getitem AUDIO_FILES (''minute_'' @ str_int minute_rounded) = Inr minute_clip \<and>
                 files = [intro, period_clip, hour_clip, minute_clip]))"
proof -
  from resolver_lookups [OF assms] obtain fi p pf hf where
    l: "getitem AUDIO_FILES ''intro'' = Inr fi" "getitem TIME_PERIODS hour_24 = Inr p"
       "getitem AUDIO_FILES p = Inr pf" "getitem AUDIO_FILES (''hour_'' @ str_int hour_12) = Inr hf"
    and res: "fst (get_audio_files_for_time w) =
             (if minute_rounded = 15 then Inr [fi, pf, hf, ''poner_minute.wav'']
              else if minute_rounded = 30 then Inr [fi, pf, hf, ''trish_minute.wav'']
              else if minute_rounded = 45 then Inr [fi, pf, hf, ''poytallish_minute.wav'']
              else Inr [fi, pf, hf])"
    by blast
  from rounded_slot_range [OF assms] have "minute_rounded \<in> {0, 15, 30, 45}" by simp
  then have "\<exists>files. fst (get_audio_files_for_time w) = Inr files \<and>
           length files = (if minute_rounded = 0 then 3 else 4) \<and>
           (if minute_rounded = 0
            then files = [fi, pf, hf]
            else minute_rounded \<in> {15, 30, 45} \<and>
              (\<exists>minute_clip.
                 getitem AUDIO_FILES (''minute_'' @ str_int minute_rounded) = Inr minute_clip \<and>
                 files = [fi, pf, hf, minute_clip]))"
    using res
    by (elim insertE emptyE)
      (simp_all add: getitem_def AUDIO_FILES_def str_int_def str_nat.simps digit_char_def)
  with l show ?thesis by blast
qed

theorem clip_sequence_shape_witness:
  "valid_datetime \<lparr>ordinal = 738000, hour = 14, minute = 40, second = 0, microsecond = 0\<rparr> \<and>
   rounded_slot \<lparr>ordinal = 738000, hour = 14, minute = 40, second = 0, microsecond = 0\<rparr> = (45, 2, 14) \<and>
   fst (get_audio_files_for_time
     \<lparr>wall = \<lparr>ordinal = 738000, hour = 14, minute = 40, second = 0, microsecond = 0\<rparr>,
      running = True, paths = {}, events = [], blocks = 0\<rparr>) =
     Inr [''ekhon_somoy.wav'', ''dupur.wav'', ''duita.wav'', ''poytallish_minute.wav'']"
  using clip_sequence_shape [of "\<lparr>wall = \<lparr>ordinal = 738000, hour = 14, minute = 40, second = 0, microsecond = 0\<rparr>,
      running = True, paths = {}, events = [], blocks = 0\<rparr>" 45 2 14]
  by (simp add: valid_datetime_def MAXORDINAL_def rounded_slot_def Let_def getitem_def
      AUDIO_FILES_def TIME_PERIODS_def str_int_def str_nat.simps digit_char_def)

text \<open>
  C10. For a valid clock reading (hour 0..23, minute 0..59) no lookup of the resolver
  fails: the 12-hour value of the slot is in 1..12 also after the rollover, the 24-hour
  value of the slot is a key of the period table, the keys intro, the period name, hour_N
  and (for a bucket other than 0) minute_N are keys of the clip table, and the resolver
  returns a list, all of whose members are values of the clip table, not a
  \<^verbatim>\<open>KeyError\<close>.
\<close>

theorem resolver_lookups_total:
  assumes "valid_datetime (wall w)"
    and "rounded_slot (wall w) = (minute_rounded, hour_12, hour_24)"
  shows "1 \<le> hour_12 \<and> hour_12 \<le> 12 \<and>
         hour_24 \<in> fst ` set TIME_PERIODS \<and>
         ''intro'' \<in> fst ` set AUDIO_FILES \<and>
         (\<exists>period. getitem TIME_PERIODS hour_24 = Inr period \<and> period \<in> fst ` set AUDIO_FILES) \<and>
         ''hour_'' @ str_int hour_12 \<in> fst ` set AUDIO_FILES \<and>
         (minute_rounded = 0 \<or> ''minute_'' @ str_int minute_rounded \<in> fst ` set AUDIO_FILES) \<and>
         (\<exists>files. fst (get_audio_files_for_time w) = Inr files \<and>
                  set files \<subseteq> set (dict_values AUDIO_FILES))"
proof -
  from rounded_slot_range [OF assms]
  have r: "minute_rounded \<in> {0, 15, 30, 45}" "1 \<le> hour_12" "hour_12 \<le> 12" by simp_all
  from resolver_lookups [OF assms] obtain fi p pf hf where
    l: "getitem AUDIO_FILES ''intro'' = Inr fi" "getitem TIME_PERIODS hour_24 = Inr p"
       "getitem AUDIO_FILES p = Inr pf" "getitem AUDIO_FILES (''hour_'' @ str_int hour_12) = Inr hf"
    and sub: "{fi, pf, hf} \<subseteq> set (dict_values AUDIO_FILES)"
    and res: "fst (get_audio_files_for_time w) =
             (if minute_rounded = 15 then Inr [fi, pf, hf, ''poner_minute.wav'']
              else if minute_rounded = 30 then Inr [fi, pf, hf, ''trish_minute.wav'']
              else if minute_rounded = 45 then Inr [fi, pf, hf, ''poytallish_minute.wav'']
              else Inr [fi, pf, hf])"
    by blast
  have k1: "hour_24 \<in> fst ` set TIME_PERIODS" using getitem_key [OF l(2)] by simp
  have k2: "''intro'' \<in> fst ` set AUDIO_FILES" using getitem_key [OF l(1)] by simp
  have k3: "p \<in> fst ` set AUDIO_FILES" using getitem_key [OF l(3)] by simp
  have k4: "''hour_'' @ str_int hour_12 \<in> fst ` set AUDIO_FILES"
    using getitem_key [OF l(4)] by simp
  have k5: "minute_rounded = 0 \<or> ''minute_'' @ str_int minute_rounded \<in> fst ` set AUDIO_FILES"
    using r(1)
    by (elim insertE emptyE)
      (simp_all add: AUDIO_FILES_def str_int_def str_nat.simps digit_char_def)
  have m: "{''poner_minute.wav'', ''trish_minute.wav'', ''poytallish_minute.wav''}
      \<subseteq> set (dict_values AUDIO_FILES)"
    by (simp add: dict_values_def AUDIO_FILES_def)
  have k6: "\<exists>files. fst (get_audio_files_for_time w) = Inr files \<and>
                  set files \<subseteq> set (dict_values AUDIO_FILES)"
    using res sub m by auto
  from r(2,3) k1 k2 l(2) k3 k4 k5 k6 show ?thesis by blast
qed

theorem resolver_lookups_total_witness:
  "valid_datetime \<lparr>ordinal = 738000, hour = 11, minute = 59, second = 59, microsecond = 999999\<rparr> \<and>
   rounded_slot \<lparr>ordinal = 738000, hour = 11, minute = 59, second = 59, microsecond = 999999\<rparr> = (0, 12, 12) \<and>
   (12::int) \<in> fst ` set TIME_PERIODS \<and>
   fst (get_audio_files_for_time
     \<lparr>wall = \<lparr>ordinal = 738000, hour = 11, minute = 59, second = 59, microsecond = 999999\<rparr>,
      running = True, paths = {}, events = [], blocks = 0\<rparr>) =
     Inr [''ekhon_somoy.wav'', ''dupur.wav'', ''barota.wav'']"
  using resolver_lookups_total [of "\<lparr>wall = \<lparr>ordinal = 738000, hour = 11, minute = 59, second = 59, microsecond = 999999\<rparr>,
      running = True, paths = {}, events = [], blocks = 0\<rparr>" 0 12 12]
  by (simp add: valid_datetime_def MAXORDINAL_def rounded_slot_def Let_def getitem_def
      AUDIO_FILES_def TIME_PERIODS_def str_int_def str_nat.simps digit_char_def
      get_audio_files_for_time_def and_then_def)

text \<open>
  C9. The resolver hands the state back unchanged, so it mutates nothing; a second
  evaluation in the state the first one left gives the same sequence; and its result is a
  function of the clock reading alone: two states that read the same instant give the same
  sequence, whatever else (the flag, the file system, the events so far) differs.
\<close>

theorem resolver_deterministic_pure:
  "snd (get_audio_files_for_time w) = w \<and>
   fst (get_audio_files_for_time (snd (get_audio_files_for_time w))) =
     fst (get_audio_files_for_time w) \<and>
   (wall w1 = wall w2 \<longrightarrow> fst (get_audio_files_for_time w1) = fst (get_audio_files_for_time w2))"
  by (simp add: get_audio_files_for_time_def Let_def split: prod.splits)

theorem resolver_deterministic_pure_witness:
  "fst (get_audio_files_for_time
     \<lparr>wall = \<lparr>ordinal = 738000, hour = 7, minute = 5, second = 0, microsecond = 0\<rparr>,
      running = True, paths = {}, events = [], blocks = 0\<rparr>) =
   fst (get_audio_files_for_time
     \<lparr>wall = \<lparr>ordinal = 738000, hour = 7, minute = 5, second = 0, microsecond = 0\<rparr>,
      running = False, paths = {''x''}, events = [Print ''y''], blocks = 3\<rparr>) \<and>
   snd (get_audio_files_for_time
     \<lparr>wall = \<lparr>ordinal = 738000, hour = 7, minute = 5, second = 0, microsecond = 0\<rparr>,
      running = True, paths = {}, events = [], blocks = 0\<rparr>) =
     \<lparr>wall = \<lparr>ordinal = 738000, hour = 7, minute = 5, second = 0, microsecond = 0\<rparr>,
      running = True, paths = {}, events = [], blocks = 0\<rparr>"
  using resolver_deterministic_pure
    [of "\<lparr>wall = \<lparr>ordinal = 738000, hour = 7, minute = 5, second = 0, microsecond = 0\<rparr>,
      running = True, paths = {}, events = [], blocks = 0\<rparr>"
      "\<lparr>wall = \<lparr>ordinal = 738000, hour = 7, minute = 5, second = 0, microsecond = 0\<rparr>,
      running = True, paths = {}, events = [], blocks = 0\<rparr>"
      "\<lparr>wall = \<lparr>ordinal = 738000, hour = 7, minute = 5, second = 0, microsecond = 0\<rparr>,
        running = False, paths = {''x''}, events = [Print ''y''], blocks = 3\<rparr>"]
  by simp

section \<open>The next announcement time\<close>

lemma add_one_hour:
  assumes "0 < ordinal d" "ordinal d \<le> MAXORDINAL"
    and "0 \<le> hour d" "hour d < 24" "minute d = 0" "second d = 0"
  shows "add_hours d 1 =
    (if hour d < 23 then Inr \<lparr>ordinal = ordinal d, hour = hour d + 1, minute = 0, second = 0,
                              microsecond = microsecond d\<rparr>
     else if ordinal d < MAXORDINAL
          then Inr \<lparr>ordinal = ordinal d + 1, hour = 0, minute = 0, second = 0,
                    microsecond = microsecond d\<rparr>
          else Inl OverflowError)"
proof -
  from assms(3,4) have "hour d \<in> {0,1,2,3,4,5,6,7,8,9,10,11,12,13,14,15,16,17,18,19,20,21,22,23}"
    by (rule period_cases)
  then show ?thesis using assms(1,2,5,6)
    by (elim insertE emptyE) (simp_all add: add_hours_def Let_def)
qed

lemma next_minute_props:
  assumes "interval \<in> {15, 30, 60}" and "0 \<le> (m::int)" and "m < 60"
  shows "m < (m div interval + 1) * interval \<and> (m div interval + 1) * interval \<le> 60 \<and>
         0 \<le> (m div interval + 1) * interval \<and>
         ((m div interval + 1) * interval) mod interval = 0"
  using assms by (elim insertE emptyE; simp; presburger)

lemma next_minute_least:
  assumes "interval \<in> {15, 30, 60}" and "0 \<le> (m::int)" and "m < k" and "k mod interval = 0"
  shows "(m div interval + 1) * interval \<le> k"
  using assms by (elim insertE emptyE; simp; presburger)

lemma next_time_closed:
  assumes "valid_datetime now" and "interval \<in> {15, 30, 60}"
  shows "next_time now interval =
    (if (minute now div interval + 1) * interval < 60
     then Inr (now\<lparr>minute := (minute now div interval + 1) * interval, second := 0,
                    microsecond := 0\<rparr>)
     else if hour now < 23
     then Inr \<lparr>ordinal = ordinal now, hour = hour now + 1, minute = 0, second = 0,
               microsecond = 0\<rparr>
     else if ordinal now < MAXORDINAL
     then Inr \<lparr>ordinal = ordinal now + 1, hour = 0, minute = 0, second = 0, microsecond = 0\<rparr>
     else Inl OverflowError)"
proof -
  let ?top = "now\<lparr>minute := 0, second := 0, microsecond := 0\<rparr>"
  have v: "0 < ordinal now" "ordinal now \<le> MAXORDINAL" "0 \<le> hour now" "hour now < 24"
    "0 \<le> minute now" "minute now < 60"
    using assms(1) by (simp_all add: valid_datetime_def)
  have top: "add_hours ?top 1 =
    (if hour now < 23
     then Inr \<lparr>ordinal = ordinal now, hour = hour now + 1, minute = 0, second = 0,
               microsecond = 0\<rparr>
     else if ordinal now < MAXORDINAL
     then Inr \<lparr>ordinal = ordinal now + 1, hour = 0, minute = 0, second = 0, microsecond = 0\<rparr>
     else Inl OverflowError)"
    using add_one_hour [of ?top] v by simp
  from next_minute_props [OF assms(2) v(5,6)]
  have nm: "0 \<le> (minute now div interval + 1) * interval"
    "(minute now div interval + 1) * interval \<le> 60" by simp_all
  from assms(2) consider "interval = 15" | "interval = 30" | "interval = 60" by auto
  then show ?thesis
  proof cases
    case 1
    with nm show ?thesis
      by (simp add: next_time_def Let_def and_then_def top replace_time_def)
  next
    case 2
    have "(minute now div 30 + 1) * 30 = (if minute now < 30 then 30 else 60)"
      using v(5,6) by presburger
    with 2 show ?thesis
      by (simp add: next_time_def Let_def and_then_def top replace_time_def)
  next
    case 3
    have "(minute now div 60 + 1) * 60 = 60"
      using v(5,6) by simp
    with 3 show ?thesis
      by (simp add: next_time_def Let_def and_then_def top replace_time_def)
  qed
qed

lemma later_minute:
  assumes "valid_datetime now" and "datetime_less now u"
    and "second u = 0" and "microsecond u = 0"
  shows "ordinal now < ordinal u \<or> (ordinal now = ordinal u \<and>
           (hour now < hour u \<or> (hour now = hour u \<and> minute now < minute u)))"
  using assms by (auto simp add: datetime_less_def valid_datetime_def)

lemma overflow_window:
  assumes "interval \<in> {15, 30, 60}" and "0 \<le> (m::int)" and "m < 60"
  shows "(m div interval + 1) * interval < 60 \<longleftrightarrow> m < 60 - interval"
  using assms by (elim insertE emptyE; simp; presburger)

lemma lex_least_same_hour:
  fixes o1 o2 h1 h2 m2 nm :: int
  assumes "o1 < o2 \<or> (o1 = o2 \<and> (h1 < h2 \<or> (h1 = h2 \<and> nm \<le> m2)))"
  shows "\<not> (o2 < o1 \<or> (o2 = o1 \<and> (h2 < h1 \<or> (h2 = h1 \<and> m2 < nm))))"
  using assms by auto

lemma lex_least_next_hour:
  fixes o1 o2 h1 h2 m2 nm :: int
  assumes "o1 < o2 \<or> (o1 = o2 \<and> (h1 < h2 \<or> (h1 = h2 \<and> nm \<le> m2)))"
    and "60 \<le> nm" and "m2 < 60" and "0 \<le> m2"
  shows "\<not> (o2 < o1 \<or> (o2 = o1 \<and> (h2 < h1 + 1 \<or> (h2 = h1 + 1 \<and> m2 < 0))))"
  using assms by auto

lemma lex_least_next_day:
  fixes o1 o2 h1 h2 m2 nm :: int
  assumes "o1 < o2 \<or> (o1 = o2 \<and> (h1 < h2 \<or> (h1 = h2 \<and> nm \<le> m2)))"
    and "60 \<le> nm" and "m2 < 60" and "0 \<le> m2" and "23 \<le> h1" and "h2 < 24" and "0 \<le> h2"
  shows "\<not> (o2 < o1 + 1 \<or> (o2 = o1 + 1 \<and> (h2 < 0 \<or> (h2 = 0 \<and> m2 < 0))))"
  using assms by auto

text \<open>
  C5, as the code has it. For a valid clock reading and an interval of 15, 30 or 60 minutes
  the next announcement time is a valid clock value strictly after the reading whose minute
  is a multiple of the interval and whose second and microsecond are 0, and no valid clock
  value with these properties lies before it. The one exception is the last interval of the
  last day the clock type has (9999-12-31, hour 23, minute at least 60 minus the interval):
  there the next boundary is outside the type and the computation raises
  \<^verbatim>\<open>OverflowError\<close>.
\<close>

theorem next_time_least_boundary:
  assumes "valid_datetime now" and "interval \<in> {15, 30, 60}"
  shows "if ordinal now = MAXORDINAL \<and> hour now = 23 \<and> 60 - interval \<le> minute now
         then next_time now interval = Inl OverflowError
         else (\<exists>t. next_time now interval = Inr t \<and> valid_datetime t \<and> datetime_less now t \<and>
                 minute t mod interval = 0 \<and> second t = 0 \<and> microsecond t = 0 \<and>
                 (\<forall>u. valid_datetime u \<and> datetime_less now u \<and> minute u mod interval = 0 \<and>
                      second u = 0 \<and> microsecond u = 0 \<longrightarrow> \<not> datetime_less u t))"
proof -
  define nm where "nm = (minute now div interval + 1) * interval"
  have v: "0 < ordinal now" "ordinal now \<le> MAXORDINAL" "0 \<le> hour now" "hour now < 24"
    "0 \<le> minute now" "minute now < 60" "0 \<le> second now" "0 \<le> microsecond now"
    using assms(1) by (simp_all add: valid_datetime_def)
  have closed: "next_time now interval =
    (if nm < 60
     then Inr (now\<lparr>minute := nm, second := 0, microsecond := 0\<rparr>)
     else if hour now < 23
     then Inr \<lparr>ordinal = ordinal now, hour = hour now + 1, minute = 0, second = 0,
               microsecond = 0\<rparr>
     else if ordinal now < MAXORDINAL
     then Inr \<lparr>ordinal = ordinal now + 1, hour = 0, minute = 0, second = 0, microsecond = 0\<rparr>
     else Inl OverflowError)"
    unfolding nm_def by (rule next_time_closed [OF assms])
  have nm: "minute now < nm" "nm \<le> 60" "nm mod interval = 0"
    unfolding nm_def using next_minute_props [OF assms(2) v(5,6)] by blast+
  have win: "nm < 60 \<longleftrightarrow> minute now < 60 - interval"
    unfolding nm_def using assms(2) v(5,6) by (rule overflow_window)
  have i0: "(0::int) mod interval = 0" by simp
  have later: "ordinal now < ordinal u \<or> (ordinal now = ordinal u \<and>
           (hour now < hour u \<or> (hour now = hour u \<and> nm \<le> minute u)))"
    if u: "valid_datetime u \<and> datetime_less now u \<and> minute u mod interval = 0 \<and>
           second u = 0 \<and> microsecond u = 0" for u
  proof -
    from u have l: "ordinal now < ordinal u \<or> (ordinal now = ordinal u \<and>
           (hour now < hour u \<or> (hour now = hour u \<and> minute now < minute u)))"
      by (intro later_minute [OF assms(1)]) simp_all
    have "nm \<le> minute u" if "minute now < minute u"
      unfolding nm_def using assms(2) v(5) that u by (intro next_minute_least) simp_all
    with l show ?thesis by blast
  qed
  have ubound: "minute u < 60" "0 \<le> minute u" "hour u < 24" "0 \<le> hour u"
    if "valid_datetime u \<and> datetime_less now u \<and> minute u mod interval = 0 \<and>
           second u = 0 \<and> microsecond u = 0" for u
    using that by (simp_all add: valid_datetime_def)
  have zeros: "second u = 0" "microsecond u = 0"
    if "valid_datetime u \<and> datetime_less now u \<and> minute u mod interval = 0 \<and>
           second u = 0 \<and> microsecond u = 0" for u
    using that by simp_all
  consider (same_hour) "nm < 60"
    | (next_hour) "\<not> nm < 60" "hour now < 23"
    | (next_day) "\<not> nm < 60" "\<not> hour now < 23" "ordinal now < MAXORDINAL"
    | (overflow) "\<not> nm < 60" "\<not> hour now < 23" "\<not> ordinal now < MAXORDINAL"
    by blast
  then show ?thesis
  proof cases
    case same_hour
    let ?t = "now\<lparr>minute := nm, second := 0, microsecond := 0\<rparr>"
    have eq: "next_time now interval = Inr ?t"
      using same_hour by (simp add: closed)
    have vt: "valid_datetime ?t"
      using assms(1) same_hour nm(1) v(5) by (simp add: valid_datetime_def)
    have lt: "datetime_less now ?t"
      using nm(1) by (simp add: datetime_less_def)
    have least: "\<not> datetime_less u ?t"
      if u: "valid_datetime u \<and> datetime_less now u \<and> minute u mod interval = 0 \<and>
           second u = 0 \<and> microsecond u = 0" for u
    proof -
      have "datetime_less u ?t \<longleftrightarrow>
        (ordinal u < ordinal now \<or> (ordinal u = ordinal now \<and>
          (hour u < hour now \<or> (hour u = hour now \<and> minute u < nm))))"
        using zeros [OF u] by (simp add: datetime_less_def)
      with lex_least_same_hour [OF later [OF u]] show ?thesis by blast
    qed
    have "\<not> (ordinal now = MAXORDINAL \<and> hour now = 23 \<and> 60 - interval \<le> minute now)"
      using same_hour win by simp
    moreover have "\<exists>t. next_time now interval = Inr t \<and> valid_datetime t \<and> datetime_less now t \<and>
                 minute t mod interval = 0 \<and> second t = 0 \<and> microsecond t = 0 \<and>
                 (\<forall>u. valid_datetime u \<and> datetime_less now u \<and> minute u mod interval = 0 \<and>
                      second u = 0 \<and> microsecond u = 0 \<longrightarrow> \<not> datetime_less u t)"
      using eq vt lt nm(3) least by (intro exI [of _ ?t]) simp
    ultimately show ?thesis by (simp only: if_False)
  next
    case next_hour
    let ?t = "\<lparr>ordinal = ordinal now, hour = hour now + 1, minute = 0, second = 0,
               microsecond = 0\<rparr>"
    have eq: "next_time now interval = Inr ?t"
      using next_hour by (simp add: closed)
    have vt: "valid_datetime ?t"
      using v next_hour by (simp add: valid_datetime_def)
    have lt: "datetime_less now ?t"
      by (simp add: datetime_less_def)
    have least: "\<not> datetime_less u ?t"
      if u: "valid_datetime u \<and> datetime_less now u \<and> minute u mod interval = 0 \<and>
           second u = 0 \<and> microsecond u = 0" for u
    proof -
      have "datetime_less u ?t \<longleftrightarrow>
        (ordinal u < ordinal now \<or> (ordinal u = ordinal now \<and>
          (hour u < hour now + 1 \<or> (hour u = hour now + 1 \<and> minute u < 0))))"
        using zeros [OF u] by (simp add: datetime_less_def)
      moreover have "60 \<le> nm" using next_hour(1) by simp
      ultimately show ?thesis
        using lex_least_next_hour [OF later [OF u] _ ubound(1,2) [OF u]] by blast
    qed
    have "\<not> (ordinal now = MAXORDINAL \<and> hour now = 23 \<and> 60 - interval \<le> minute now)"
      using next_hour by simp
    moreover have "\<exists>t. next_time now interval = Inr t \<and> valid_datetime t \<and> datetime_less now t \<and>
                 minute t mod interval = 0 \<and> second t = 0 \<and> microsecond t = 0 \<and>
                 (\<forall>u. valid_datetime u \<and> datetime_less now u \<and> minute u mod interval = 0 \<and>
                      second u = 0 \<and> microsecond u = 0 \<longrightarrow> \<not> datetime_less u t)"
      using eq vt lt i0 least by (intro exI [of _ ?t]) simp
    ultimately show ?thesis by (simp only: if_False)
  next
    case next_day
    let ?t = "\<lparr>ordinal = ordinal now + 1, hour = 0, minute = 0, second = 0, microsecond = 0\<rparr>"
    have eq: "next_time now interval = Inr ?t"
      using next_day by (simp add: closed)
    have vt: "valid_datetime ?t"
      using v next_day by (simp add: valid_datetime_def)
    have lt: "datetime_less now ?t"
      by (simp add: datetime_less_def)
    have least: "\<not> datetime_less u ?t"
      if u: "valid_datetime u \<and> datetime_less now u \<and> minute u mod interval = 0 \<and>
           second u = 0 \<and> microsecond u = 0" for u
    proof -
      have "datetime_less u ?t \<longleftrightarrow>
        (ordinal u < ordinal now + 1 \<or> (ordinal u = ordinal now + 1 \<and>
          (hour u < 0 \<or> (hour u = 0 \<and> minute u < 0))))"
        using zeros [OF u] by (simp add: datetime_less_def)
      moreover have "60 \<le> nm" "23 \<le> hour now" using next_day(1,2) by simp_all
      ultimately show ?thesis
        using lex_least_next_day [OF later [OF u] _ ubound(1,2) [OF u] _ ubound(3,4) [OF u]]
        by blast
    qed
    have "\<not> (ordinal now = MAXORDINAL \<and> hour now = 23 \<and> 60 - interval \<le> minute now)"
      using next_day by simp
    moreover have "\<exists>t. next_time now interval = Inr t \<and> valid_datetime t \<and> datetime_less now t \<and>
                 minute t mod interval = 0 \<and> second t = 0 \<and> microsecond t = 0 \<and>
                 (\<forall>u. valid_datetime u \<and> datetime_less now u \<and> minute u mod interval = 0 \<and>
                      second u = 0 \<and> microsecond u = 0 \<longrightarrow> \<not> datetime_less u t)"
      using eq vt lt i0 least by (intro exI [of _ ?t]) simp
    ultimately show ?thesis by (simp only: if_False)
  next
    case overflow
    have eq: "next_time now interval = Inl OverflowError"
      using overflow by (simp add: closed)
    have "ordinal now = MAXORDINAL \<and> hour now = 23 \<and> 60 - interval \<le> minute now"
      using overflow win v by simp
    with eq show ?thesis by simp
  qed
qed

text \<open>
  At 9999-12-31 23:30:00 with the interval 30 there is no next announcement time: the
  addition of one hour raises.
\<close>

theorem next_time_overflows_at_last_hour:
  "valid_datetime \<lparr>ordinal = 3652059, hour = 23, minute = 30, second = 0, microsecond = 0\<rparr> \<and>
   next_time \<lparr>ordinal = 3652059, hour = 23, minute = 30, second = 0, microsecond = 0\<rparr> 30 =
     Inl OverflowError"
  by (simp add: valid_datetime_def MAXORDINAL_def next_time_def replace_time_def and_then_def
      add_hours_def Let_def)

theorem next_time_least_boundary_witness:
  "valid_datetime \<lparr>ordinal = 738000, hour = 23, minute = 47, second = 12, microsecond = 250000\<rparr> \<and>
   next_time \<lparr>ordinal = 738000, hour = 23, minute = 47, second = 12, microsecond = 250000\<rparr> 15 =
     Inr \<lparr>ordinal = 738001, hour = 0, minute = 0, second = 0, microsecond = 0\<rparr> \<and>
   \<not> datetime_less \<lparr>ordinal = 738000, hour = 23, minute = 47, second = 12, microsecond = 250000\<rparr>
       \<lparr>ordinal = 738000, hour = 23, minute = 45, second = 0, microsecond = 0\<rparr>"
  using next_time_least_boundary [of "\<lparr>ordinal = 738000, hour = 23, minute = 47, second = 12, microsecond = 250000\<rparr>" 15]
  by (simp add: valid_datetime_def MAXORDINAL_def next_time_def replace_time_def and_then_def
      add_hours_def Let_def datetime_less_def)

section \<open>Playback of a sequence\<close>

lemma put_simps [simp]:
  "paths (put ev w) = paths w" "running (put ev w) = running w" "wall (put ev w) = wall w"
  "blocks (put ev w) = blocks w" "events (put ev w) = events w @ [ev]"
  by (simp_all add: put_def)

lemma paths_signal_handler [simp]: "paths (signal_handler w) = paths w"
  by (simp add: signal_handler_def Let_def)

lemma events_signal_handler: "set (events w) \<subseteq> set (events (signal_handler w))"
  by (auto simp add: signal_handler_def Let_def)

lemma paths_elapse [simp]: "paths (elapse e w) = paths w"
  by (simp add: elapse_def Let_def split: prod.splits)

lemma events_elapse: "set (events w) \<subseteq> set (events (elapse e w))"
  by (auto simp add: elapse_def signal_handler_def Let_def split: prod.splits)

lemma paths_busy_wait [simp]: "paths (busy_wait n w) = paths w"
  by (induction n arbitrary: w) simp_all

lemma events_busy_wait: "set (events w) \<subseteq> set (events (busy_wait n w))"
proof (induction n arbitrary: w)
  case 0
  show ?case by simp
next
  case (Suc n)
  have "set (events w) \<subseteq> set (events (put (Delay 100) w))" by auto
  also have "\<dots> \<subseteq> set (events (busy_wait n (put (Delay 100) w)))" by (rule Suc.IH)
  finally show ?case by simp
qed

lemma paths_play_clip_aplay [simp]: "paths (play_clip_aplay e f w) = paths w"
  by (simp add: play_clip_aplay_def Let_def split: option.splits)

lemma paths_play_clip_pygame [simp]: "paths (play_clip_pygame e f w) = paths w"
  by (simp add: play_clip_pygame_def Let_def split: sound_outcome.splits)

lemma paths_fold_aplay [simp]: "paths (fold (play_clip_aplay e) fs w) = paths w"
  by (induction fs arbitrary: w) simp_all

lemma paths_fold_pygame [simp]: "paths (fold (play_clip_pygame e) fs w) = paths w"
  by (induction fs arbitrary: w) simp_all

lemma events_play_clip_aplay: "set (events w) \<subseteq> set (events (play_clip_aplay e f w))"
  using events_elapse [of "put (Run [''aplay'', path_join (AUDIO_DIR e) f]) w" e]
  by (auto simp add: play_clip_aplay_def Let_def split: option.splits)

lemma events_play_clip_pygame: "set (events w) \<subseteq> set (events (play_clip_pygame e f w))"
proof -
  let ?w = "put (Mixer_sound (path_join (AUDIO_DIR e) f)) w"
  have "set (events w) \<subseteq> set (events (elapse e (busy_wait n ?w)))" for n
  proof -
    have "set (events w) \<subseteq> set (events ?w)" by auto
    also have "\<dots> \<subseteq> set (events (busy_wait n ?w))" by (rule events_busy_wait)
    also have "\<dots> \<subseteq> set (events (elapse e (busy_wait n ?w)))" by (rule events_elapse)
    finally show ?thesis .
  qed
  then show ?thesis
    by (auto simp add: play_clip_pygame_def Let_def split: sound_outcome.splits)
qed

lemma events_fold_aplay: "set (events w) \<subseteq> set (events (fold (play_clip_aplay e) fs w))"
proof (induction fs arbitrary: w)
  case Nil
  show ?case by simp
next
  case (Cons f fs)
  have "set (events w) \<subseteq> set (events (play_clip_aplay e f w))"
    by (rule events_play_clip_aplay)
  also have "\<dots> \<subseteq> set (events (fold (play_clip_aplay e) fs (play_clip_aplay e f w)))"
    by (rule Cons.IH)
  finally show ?case by simp
qed

lemma events_fold_pygame: "set (events w) \<subseteq> set (events (fold (play_clip_pygame e) fs w))"
proof (induction fs arbitrary: w)
  case Nil
  show ?case by simp
next
  case (Cons f fs)
  have "set (events w) \<subseteq> set (events (play_clip_pygame e f w))"
    by (rule events_play_clip_pygame)
  also have "\<dots> \<subseteq> set (events (fold (play_clip_pygame e) fs (play_clip_pygame e f w)))"
    by (rule Cons.IH)
  finally show ?case by simp
qed

lemma found_clip_aplay_called:
  assumes "path_join (AUDIO_DIR e) g \<in> paths w"
  shows "Run [''aplay'', path_join (AUDIO_DIR e) g] \<in> set (events (play_clip_aplay e g w))"
  using assms events_elapse [of "put (Run [''aplay'', path_join (AUDIO_DIR e) g]) w" e]
  by (auto simp add: play_clip_aplay_def Let_def split: option.splits)

lemma found_clip_pygame_called:
  assumes "path_join (AUDIO_DIR e) g \<in> paths w"
  shows "Mixer_sound (path_join (AUDIO_DIR e) g) \<in> set (events (play_clip_pygame e g w))"
proof -
  let ?w = "put (Mixer_sound (path_join (AUDIO_DIR e) g)) w"
  have "Mixer_sound (path_join (AUDIO_DIR e) g) \<in> set (events (elapse e (busy_wait n ?w)))" for n
    using events_busy_wait [of ?w n] events_elapse [of "busy_wait n ?w" e] by auto
  with assms show ?thesis
    by (auto simp add: play_clip_pygame_def Let_def split: sound_outcome.splits)
qed

lemma later_clips_aplay_called:
  assumes "g \<in> set fs" and "path_join (AUDIO_DIR e) g \<in> paths w"
  shows "Run [''aplay'', path_join (AUDIO_DIR e) g] \<in> set (events (fold (play_clip_aplay e) fs w))"
  using assms
proof (induction fs arbitrary: w)
  case Nil
  then show ?case by simp
next
  case (Cons f fs)
  show ?case
  proof (cases "g = f")
    case True
    with Cons.prems(2) have "Run [''aplay'', path_join (AUDIO_DIR e) g]
        \<in> set (events (play_clip_aplay e f w))"
      by (simp add: found_clip_aplay_called)
    with events_fold_aplay [of "play_clip_aplay e f w" e fs] show ?thesis by auto
  next
    case False
    with Cons.prems(1) have "g \<in> set fs" by simp
    moreover from Cons.prems(2) have "path_join (AUDIO_DIR e) g \<in> paths (play_clip_aplay e f w)"
      by simp
    ultimately show ?thesis using Cons.IH by simp
  qed
qed

lemma later_clips_pygame_called:
  assumes "g \<in> set fs" and "path_join (AUDIO_DIR e) g \<in> paths w"
  shows "Mixer_sound (path_join (AUDIO_DIR e) g) \<in> set (events (fold (play_clip_pygame e) fs w))"
  using assms
proof (induction fs arbitrary: w)
  case Nil
  then show ?case by simp
next
  case (Cons f fs)
  show ?case
  proof (cases "g = f")
    case True
    with Cons.prems(2) have "Mixer_sound (path_join (AUDIO_DIR e) g)
        \<in> set (events (play_clip_pygame e f w))"
      by (simp add: found_clip_pygame_called)
    with events_fold_pygame [of "play_clip_pygame e f w" e fs] show ?thesis by auto
  next
    case False
    with Cons.prems(1) have "g \<in> set fs" by simp
    moreover from Cons.prems(2) have "path_join (AUDIO_DIR e) g \<in> paths (play_clip_pygame e f w)"
      by simp
    ultimately show ?thesis using Cons.IH by simp
  qed
qed

lemma aplay_missing_step:
  assumes "path_join (AUDIO_DIR e) f \<notin> paths w"
  shows "play_clip_aplay e f w =
    put (Print (''Warning: Audio file not found: '' @ path_join (AUDIO_DIR e) f)) w"
  using assms by (simp add: play_clip_aplay_def Let_def)

lemma aplay_raising_step:
  assumes "path_join (AUDIO_DIR e) f \<in> paths w"
    and "aplay_raises e (path_join (AUDIO_DIR e) f) = Some msg"
  shows "play_clip_aplay e f w =
    put (Print (''Error playing audio file '' @ f @ '': '' @ msg))
      (put (Run [''aplay'', path_join (AUDIO_DIR e) f]) w)"
  using assms by (simp add: play_clip_aplay_def Let_def)

lemma pygame_missing_step:
  assumes "path_join (AUDIO_DIR e) f \<notin> paths w"
  shows "play_clip_pygame e f w =
    put (Print (''Warning: Audio file not found: '' @ path_join (AUDIO_DIR e) f)) w"
  using assms by (simp add: play_clip_pygame_def Let_def)

lemma pygame_raising_step:
  assumes "path_join (AUDIO_DIR e) f \<in> paths w"
    and "pygame_sound e (path_join (AUDIO_DIR e) f) = Sound_raises msg"
  shows "play_clip_pygame e f w =
    put (Print (''Error playing audio file '' @ f @ '': '' @ msg))
      (put (Mixer_sound (path_join (AUDIO_DIR e) f)) w)"
  using assms by (simp add: play_clip_pygame_def Let_def)

lemma pygame_sequence_ok:
  assumes "mixer_init_raises e = None"
  shows "play_audio_sequence_pygame e fs w = (Inr (), fold (play_clip_pygame e) fs (put Mixer_init w))"
  using assms by (simp add: play_audio_sequence_pygame_def Let_def)

text \<open>
  C7, as the code has it. In both backends (for pygame: once \<^verbatim>\<open>pygame.mixer.init()\<close>
  has returned) the
  loop over a sequence goes on after a clip that cannot be played. When the file of the
  clip \<open>f\<close> does not exist, playing \<open>pre @ f # post\<close> is playing \<open>pre\<close>, printing the
  warning with the path, and playing \<open>post\<close>; when the file exists and the backend raises
  with the message \<open>msg\<close>, it is playing \<open>pre\<close>, the call of the backend, printing the
  error with the filename and the message, and playing \<open>post\<close>. In either case the backend
  is called for every clip of \<open>post\<close> whose file exists.
\<close>

theorem playback_skips_and_continues:
  "(path_join (AUDIO_DIR e) f \<notin> paths w \<longrightarrow>
      play_audio_sequence_aplay e (pre @ f # post) w =
        play_audio_sequence_aplay e post
          (put (Print (''Warning: Audio file not found: '' @ path_join (AUDIO_DIR e) f))
             (play_audio_sequence_aplay e pre w))) \<and>
   (path_join (AUDIO_DIR e) f \<in> paths w \<and>
    aplay_raises e (path_join (AUDIO_DIR e) f) = Some msg \<longrightarrow>
      play_audio_sequence_aplay e (pre @ f # post) w =
        play_audio_sequence_aplay e post
          (put (Print (''Error playing audio file '' @ f @ '': '' @ msg))
             (put (Run [''aplay'', path_join (AUDIO_DIR e) f])
                (play_audio_sequence_aplay e pre w)))) \<and>
   (\<forall>g \<in> set post. path_join (AUDIO_DIR e) g \<in> paths w \<longrightarrow>
      Run [''aplay'', path_join (AUDIO_DIR e) g]
        \<in> set (events (play_audio_sequence_aplay e (pre @ f # post) w))) \<and>
   (mixer_init_raises e = None \<longrightarrow>
      fst (play_audio_sequence_pygame e (pre @ f # post) w) = Inr () \<and>
      (path_join (AUDIO_DIR e) f \<notin> paths w \<longrightarrow>
         snd (play_audio_sequence_pygame e (pre @ f # post) w) =
           fold (play_clip_pygame e) post
             (put (Print (''Warning: Audio file not found: '' @ path_join (AUDIO_DIR e) f))
                (snd (play_audio_sequence_pygame e pre w)))) \<and>
      (path_join (AUDIO_DIR e) f \<in> paths w \<and>
       pygame_sound e (path_join (AUDIO_DIR e) f) = Sound_raises msg \<longrightarrow>
         snd (play_audio_sequence_pygame e (pre @ f # post) w) =
           fold (play_clip_pygame e) post
             (put (Print (''Error playing audio file '' @ f @ '': '' @ msg))
                (put (Mixer_sound (path_join (AUDIO_DIR e) f))
                   (snd (play_audio_sequence_pygame e pre w))))) \<and>
      (\<forall>g \<in> set post. path_join (AUDIO_DIR e) g \<in> paths w \<longrightarrow>
         Mixer_sound (path_join (AUDIO_DIR e) g)
           \<in> set (events (snd (play_audio_sequence_pygame e (pre @ f # post) w)))))"
proof (intro conjI impI ballI)
  let ?p = "path_join (AUDIO_DIR e) f"
  let ?a = "play_audio_sequence_aplay e pre w"
  have split_a: "play_audio_sequence_aplay e (pre @ f # post) w =
      play_audio_sequence_aplay e post (play_clip_aplay e f ?a)"
    by (simp add: play_audio_sequence_aplay_def)
  have paths_a: "paths ?a = paths w"
    by (simp add: play_audio_sequence_aplay_def)
  {
    assume "?p \<notin> paths w"
    then show "play_audio_sequence_aplay e (pre @ f # post) w =
        play_audio_sequence_aplay e post
          (put (Print (''Warning: Audio file not found: '' @ ?p)) ?a)"
      by (simp only: split_a aplay_missing_step paths_a not_False_eq_True)
  }
  {
    assume "?p \<in> paths w \<and> aplay_raises e ?p = Some msg"
    then show "play_audio_sequence_aplay e (pre @ f # post) w =
        play_audio_sequence_aplay e post
          (put (Print (''Error playing audio file '' @ f @ '': '' @ msg))
             (put (Run [''aplay'', ?p]) ?a))"
      using aplay_raising_step [of e f ?a msg] by (simp add: split_a paths_a)
  }
  {
    fix g
    assume g: "g \<in> set post" "path_join (AUDIO_DIR e) g \<in> paths w"
    then show "Run [''aplay'', path_join (AUDIO_DIR e) g]
        \<in> set (events (play_audio_sequence_aplay e (pre @ f # post) w))"
      unfolding play_audio_sequence_aplay_def
      by (intro later_clips_aplay_called) simp_all
  }
  assume init: "mixer_init_raises e = None"
  let ?b = "snd (play_audio_sequence_pygame e pre w)"
  have b: "?b = fold (play_clip_pygame e) pre (put Mixer_init w)"
    by (simp add: pygame_sequence_ok [OF init])
  have split_b: "snd (play_audio_sequence_pygame e (pre @ f # post) w) =
      fold (play_clip_pygame e) post (play_clip_pygame e f ?b)"
    by (simp add: pygame_sequence_ok [OF init])
  have paths_b: "paths ?b = paths w"
    by (simp add: b)
  show "fst (play_audio_sequence_pygame e (pre @ f # post) w) = Inr ()"
    by (simp add: pygame_sequence_ok [OF init])
  {
    assume "?p \<notin> paths w"
    then show "snd (play_audio_sequence_pygame e (pre @ f # post) w) =
        fold (play_clip_pygame e) post
          (put (Print (''Warning: Audio file not found: '' @ ?p)) ?b)"
      using pygame_missing_step [of e f ?b] by (simp only: split_b paths_b not_False_eq_True)
  }
  {
    assume "?p \<in> paths w \<and> pygame_sound e ?p = Sound_raises msg"
    then show "snd (play_audio_sequence_pygame e (pre @ f # post) w) =
        fold (play_clip_pygame e) post
          (put (Print (''Error playing audio file '' @ f @ '': '' @ msg))
             (put (Mixer_sound ?p) ?b))"
      using pygame_raising_step [of e f ?b msg] by (simp add: split_b paths_b)
  }
  {
    fix g
    assume g: "g \<in> set post" "path_join (AUDIO_DIR e) g \<in> paths w"
    then show "Mixer_sound (path_join (AUDIO_DIR e) g)
        \<in> set (events (snd (play_audio_sequence_pygame e (pre @ f # post) w)))"
      unfolding pygame_sequence_ok [OF init] snd_conv
      by (intro later_clips_pygame_called) simp_all
  }
qed

theorem playback_skips_and_continues_witness:
  "''/a/y.wav'' \<notin> {''/a'', ''/a/x.wav'', ''/a/z.wav''} \<and>
   events (play_audio_sequence_aplay
     \<lparr>AUDIO_DIR = ''/a'', PYGAME_AVAILABLE = True, aplay_probe_raises = False,
       makedirs_raises = None, mixer_init_raises = None,
       pygame_sound = (\<lambda>p. if p = ''/a/x.wav'' then Sound_raises ''boom'' else Sound_plays 1),
       aplay_raises = (\<lambda>p. if p = ''/a/x.wav'' then Some ''boom'' else None),
       strftime = (\<lambda>d. ''now''), after_block = (\<lambda>k. (\<lparr>ordinal = 738000, hour = 7, minute = 29, second = 40, microsecond = 0\<rparr>, False))\<rparr>
     [''x.wav'', ''y.wav'', ''z.wav'']
     \<lparr>wall = \<lparr>ordinal = 738000, hour = 7, minute = 29, second = 40, microsecond = 0\<rparr>,
       running = True, paths = {''/a'', ''/a/x.wav'', ''/a/z.wav''}, events = [], blocks = 0\<rparr>) =
     [Run [''aplay'', ''/a/x.wav''], Print ''Error playing audio file x.wav: boom'',
      Print ''Warning: Audio file not found: /a/y.wav'', Run [''aplay'', ''/a/z.wav'']] \<and>
   events (snd (play_audio_sequence_pygame
     \<lparr>AUDIO_DIR = ''/a'', PYGAME_AVAILABLE = True, aplay_probe_raises = False,
       makedirs_raises = None, mixer_init_raises = None,
       pygame_sound = (\<lambda>p. if p = ''/a/x.wav'' then Sound_raises ''boom'' else Sound_plays 1),
       aplay_raises = (\<lambda>p. if p = ''/a/x.wav'' then Some ''boom'' else None),
       strftime = (\<lambda>d. ''now''), after_block = (\<lambda>k. (\<lparr>ordinal = 738000, hour = 7, minute = 29, second = 40, microsecond = 0\<rparr>, False))\<rparr>
     [''x.wav'', ''y.wav'', ''z.wav'']
     \<lparr>wall = \<lparr>ordinal = 738000, hour = 7, minute = 29, second = 40, microsecond = 0\<rparr>,
       running = True, paths = {''/a'', ''/a/x.wav'', ''/a/z.wav''}, events = [], blocks = 0\<rparr>)) =
     [Mixer_init, Mixer_sound ''/a/x.wav'', Print ''Error playing audio file x.wav: boom'',
      Print ''Warning: Audio file not found: /a/y.wav'', Mixer_sound ''/a/z.wav'', Delay 100]"
  using playback_skips_and_continues
     [of "\<lparr>AUDIO_DIR = ''/a'', PYGAME_AVAILABLE = True, aplay_probe_raises = False,
       makedirs_raises = None, mixer_init_raises = None,
       pygame_sound = (\<lambda>p. if p = ''/a/x.wav'' then Sound_raises ''boom'' else Sound_plays 1),
       aplay_raises = (\<lambda>p. if p = ''/a/x.wav'' then Some ''boom'' else None),
       strftime = (\<lambda>d. ''now''), after_block = (\<lambda>k. (\<lparr>ordinal = 738000, hour = 7, minute = 29, second = 40, microsecond = 0\<rparr>, False))\<rparr>"
       "''y.wav''"
       "\<lparr>wall = \<lparr>ordinal = 738000, hour = 7, minute = 29, second = 40, microsecond = 0\<rparr>,
       running = True, paths = {''/a'', ''/a/x.wav'', ''/a/z.wav''}, events = [], blocks = 0\<rparr>"
       "[''x.wav'']" "[''z.wav'']" "''boom''"]
    playback_skips_and_continues
     [of "\<lparr>AUDIO_DIR = ''/a'', PYGAME_AVAILABLE = True, aplay_probe_raises = False,
       makedirs_raises = None, mixer_init_raises = None,
       pygame_sound = (\<lambda>p. if p = ''/a/x.wav'' then Sound_raises ''boom'' else Sound_plays 1),
       aplay_raises = (\<lambda>p. if p = ''/a/x.wav'' then Some ''boom'' else None),
       strftime = (\<lambda>d. ''now''), after_block = (\<lambda>k. (\<lparr>ordinal = 738000, hour = 7, minute = 29, second = 40, microsecond = 0\<rparr>, False))\<rparr>"
       "''x.wav''"
       "\<lparr>wall = \<lparr>ordinal = 738000, hour = 7, minute = 29, second = 40, microsecond = 0\<rparr>,
       running = True, paths = {''/a'', ''/a/x.wav'', ''/a/z.wav''}, events = [], blocks = 0\<rparr>"
       "[]" "[''y.wav'', ''z.wav'']" "''boom''"]
  by (simp add: play_audio_sequence_aplay_def play_audio_sequence_pygame_def play_clip_aplay_def
      play_clip_pygame_def path_join_def put_def elapse_def Let_def)

text \<open>
  With pygame, when \<^verbatim>\<open>pygame.mixer.init()\<close> raises (line 122 stands outside the
  \<^verbatim>\<open>try\<close>), the clip whose file is missing gets no warning and the clips after it are
  not played: the function raises with nothing done but the call.
\<close>

theorem pygame_init_failure_aborts_sequence:
  "''/a/y.wav'' \<notin> {''/a'', ''/a/x.wav'', ''/a/z.wav''} \<and>
   play_audio_sequence_pygame
     \<lparr>AUDIO_DIR = ''/a'', PYGAME_AVAILABLE = True, aplay_probe_raises = False,
       makedirs_raises = None, mixer_init_raises = Some ''No available audio device'',
       pygame_sound = (\<lambda>p. Sound_plays 1), aplay_raises = (\<lambda>p. None),
       strftime = (\<lambda>d. ''now''),
       after_block = (\<lambda>k. (\<lparr>ordinal = 738000, hour = 7, minute = 29, second = 40, microsecond = 0\<rparr>, False))\<rparr>
     [''x.wav'', ''y.wav'', ''z.wav'']
     \<lparr>wall = \<lparr>ordinal = 738000, hour = 7, minute = 29, second = 40, microsecond = 0\<rparr>,
       running = True, paths = {''/a'', ''/a/x.wav'', ''/a/z.wav''}, events = [], blocks = 0\<rparr> =
   (Inl (Backend_error ''No available audio device''),
     \<lparr>wall = \<lparr>ordinal = 738000, hour = 7, minute = 29, second = 40, microsecond = 0\<rparr>,
       running = True, paths = {''/a'', ''/a/x.wav'', ''/a/z.wav''}, events = [Mixer_init],
       blocks = 0\<rparr>)"
  by (simp add: play_audio_sequence_pygame_def put_def Let_def)

section \<open>Startup with missing files\<close>

lemma scan_is_filter:
  "fold (\<lambda>x acc. if P x then acc @ [x] else acc) xs acc = acc @ filter P xs"
  by (induction xs arbitrary: acc) simp_all

lemma fold_put_frame [simp]:
  "paths (fold (\<lambda>x. put (g x)) xs w) = paths w"
  "running (fold (\<lambda>x. put (g x)) xs w) = running w"
  "wall (fold (\<lambda>x. put (g x)) xs w) = wall w"
  "blocks (fold (\<lambda>x. put (g x)) xs w) = blocks w"
  by (induction xs arbitrary: w) simp_all

lemma fold_put_events [simp]:
  "events (fold (\<lambda>x. put (g x)) xs w) = events w @ map g xs"
  by (induction xs arbitrary: w) simp_all

lemma path_join_longer:
  assumes "b \<noteq> []" and "take 1 b \<noteq> ''/''"
  shows "path_join a b \<noteq> a"
proof -
  have "length a < length (path_join a b)"
    using assms by (simp add: path_join_def)
  then show ?thesis by auto
qed

lemma clip_files_relative:
  "file_name \<in> set (dict_values AUDIO_FILES) \<Longrightarrow> file_name \<noteq> [] \<and> take 1 file_name \<noteq> ''/''"
  by (auto simp add: dict_values_def AUDIO_FILES_def)

lemma clip_path_not_dir:
  "file_name \<in> set (dict_values AUDIO_FILES) \<Longrightarrow> path_join a file_name \<noteq> a"
  using clip_files_relative [of file_name] by (simp add: path_join_longer)

lemma probe_backend_frame [simp]:
  "paths (snd (probe_backend e w)) = paths w"
  "running (snd (probe_backend e w)) = running w"
  "wall (snd (probe_backend e w)) = wall w"
  "blocks (snd (probe_backend e w)) = blocks w"
  by (simp_all add: probe_backend_def Let_def)

lemma probe_backend_result:
  "fst (probe_backend e w) \<longleftrightarrow> PYGAME_AVAILABLE e \<or> \<not> aplay_probe_raises e"
  by (simp add: probe_backend_def Let_def)

lemma probe_backend_events:
  "events (snd (probe_backend e w)) = events w @
     (if PYGAME_AVAILABLE e then []
      else [Print ''Warning: pygame not found, trying to use aplay instead.'',
            Run [''aplay'', ''--version'']] @
           (if aplay_probe_raises e
            then [Print (''Error: Neither pygame nor aplay is available. '' @
                         ''Cannot play audio.''),
                  Print (''Please install pygame (pip install pygame) or aplay '' @
                         ''(alsa-utils package).'')]
            else []))"
  by (simp add: probe_backend_def Let_def)

lemma check_audio_files_missing:
  "fst (check_audio_files e w) =
     (if AUDIO_DIR e \<notin> paths w \<and> makedirs_raises e \<noteq> None
      then dict_values AUDIO_FILES
      else filter (\<lambda>file_name. path_join (AUDIO_DIR e) file_name \<notin> paths w)
             (dict_values AUDIO_FILES))"
proof -
  have "filter (\<lambda>file_name. path_join (AUDIO_DIR e) file_name \<notin> insert (AUDIO_DIR e) (paths w))
          (dict_values AUDIO_FILES) =
        filter (\<lambda>file_name. path_join (AUDIO_DIR e) file_name \<notin> paths w)
          (dict_values AUDIO_FILES)"
    by (rule filter_cong) (simp_all add: clip_path_not_dir)
  then show ?thesis
    by (auto simp add: check_audio_files_def missing_in_dir_def Let_def scan_is_filter
        split: option.splits)
qed

lemma check_audio_files_frame [simp]:
  "running (snd (check_audio_files e w)) = running w"
  "wall (snd (check_audio_files e w)) = wall w"
  "blocks (snd (check_audio_files e w)) = blocks w"
  by (simp_all add: check_audio_files_def Let_def split: option.splits)

lemma check_audio_files_events:
  "events (snd (check_audio_files e w)) = events w @
     (if AUDIO_DIR e \<in> paths w then []
      else case makedirs_raises e of
             None \<Rightarrow> [Print (''Created audio directory: '' @ AUDIO_DIR e)]
           | Some msg \<Rightarrow> [Print (''Error creating audio directory: '' @ msg)])"
  by (simp add: check_audio_files_def Let_def split: option.splits)

lemma report_missing_frame [simp]:
  "running (report_missing e m w) = running w"
  "wall (report_missing e m w) = wall w"
  "blocks (report_missing e m w) = blocks w"
  by (simp_all add: report_missing_def Let_def)

lemma report_missing_events:
  "events (report_missing e m w) = events w @
     [Print (''Missing '' @ str_int (int (length m)) @ '' audio files in '' @ AUDIO_DIR e @ '':'')] @
     map (\<lambda>file. Print (''  - '' @ file)) (take 10 m) @
     (if length m > 10
      then [Print (''  ... and '' @ str_int (int (length m) - 10) @ '' more.'')] else []) @
     [Print (CHR 0x0A # ''Please add these files to continue.'')]"
  by (simp add: report_missing_def Let_def)

text \<open>
  C6, as the code has it. Let a file of the clip table be missing from the audio directory
  at startup. Then \<^verbatim>\<open>run_announcer\<close> returns, whatever the bound on the rounds of the
  main loop (also 0: the loop is not entered), with no blocking call made (no sleep, no
  playback), the clock and the flag as they were, and exactly these lines printed. When a
  backend was found (pygame was imported, or the run of \<^verbatim>\<open>aplay --version\<close> did not
  raise): the line on the directory if it had to be created, the count of the missing
  files, the first 10 of them, the count of the rest when there are more than 10, and the
  request to add them. When no backend was found: the two lines on the backends and
  nothing on the missing files, since the function returns on line 201, before the check
  on line 207.
\<close>

theorem missing_assets_stop_startup:
  assumes "\<exists>file_name \<in> set (dict_values AUDIO_FILES).
             path_join (AUDIO_DIR e) file_name \<notin> paths w"
  shows "\<exists>w' missing_files.
           run_announcer e interval test_only fuel w = Some (Inr (), w') \<and>
           running w' = running w \<and> wall w' = wall w \<and> blocks w' = blocks w \<and>
           missing_files =
             (if AUDIO_DIR e \<notin> paths w \<and> makedirs_raises e \<noteq> None
              then dict_values AUDIO_FILES
              else filter (\<lambda>file_name. path_join (AUDIO_DIR e) file_name \<notin> paths w)
                     (dict_values AUDIO_FILES)) \<and>
           missing_files \<noteq> [] \<and>
           events w' = events w @
             (if PYGAME_AVAILABLE e then []
              else [Print ''Warning: pygame not found, trying to use aplay instead.'',
                    Run [''aplay'', ''--version'']]) @
             (if \<not> PYGAME_AVAILABLE e \<and> aplay_probe_raises e
              then [Print (''Error: Neither pygame nor aplay is available. '' @
                           ''Cannot play audio.''),
                    Print (''Please install pygame (pip install pygame) or aplay '' @
                           ''(alsa-utils package).'')]
              else
                (if AUDIO_DIR e \<in> paths w then []
                 else case makedirs_raises e of
                        None \<Rightarrow> [Print (''Created audio directory: '' @ AUDIO_DIR e)]
                      | Some msg \<Rightarrow> [Print (''Error creating audio directory: '' @ msg)]) @
                [Print (''Missing '' @ str_int (int (length missing_files)) @
                        '' audio files in '' @ AUDIO_DIR e @ '':'')] @
                map (\<lambda>file. Print (''  - '' @ file)) (take 10 missing_files) @
                (if length missing_files > 10
                 then [Print (''  ... and '' @ str_int (int (length missing_files) - 10) @
                              '' more.'')]
                 else []) @
                [Print (CHR 0x0A # ''Please add these files to continue.'')])"
proof -
  define m where "m =
             (if AUDIO_DIR e \<notin> paths w \<and> makedirs_raises e \<noteq> None
              then dict_values AUDIO_FILES
              else filter (\<lambda>file_name. path_join (AUDIO_DIR e) file_name \<notin> paths w)
                     (dict_values AUDIO_FILES))"
  obtain found w1 where p: "probe_backend e w = (found, w1)" by (cases "probe_backend e w")
  obtain m' w2 where c: "check_audio_files e w1 = (m', w2)" by (cases "check_audio_files e w1")
  have w1: "w1 = snd (probe_backend e w)" and found: "found = fst (probe_backend e w)"
    using p by simp_all
  have w2: "w2 = snd (check_audio_files e w1)" and m': "m' = fst (check_audio_files e w1)"
    using c by simp_all
  have mm: "m' = m"
    unfolding m' m_def check_audio_files_missing w1 by simp
  have "dict_values AUDIO_FILES \<noteq> []"
    by (simp add: dict_values_def AUDIO_FILES_def)
  moreover from assms
  have "filter (\<lambda>file_name. path_join (AUDIO_DIR e) file_name \<notin> paths w)
          (dict_values AUDIO_FILES) \<noteq> []"
    by (simp add: filter_empty_conv)
  ultimately have ne: "m \<noteq> []"
    by (simp add: m_def)
  show ?thesis
  proof (cases found)
    case False
    then have na: "\<not> PYGAME_AVAILABLE e \<and> aplay_probe_raises e"
      using found probe_backend_result [of e w] by simp
    have r: "run_announcer e interval test_only fuel w = Some (Inr (), w1)"
      using p False by (simp add: run_announcer_def)
    have "events w1 = events w @
        [Print ''Warning: pygame not found, trying to use aplay instead.'',
         Run [''aplay'', ''--version'']] @
        [Print (''Error: Neither pygame nor aplay is available. '' @ ''Cannot play audio.''),
         Print (''Please install pygame (pip install pygame) or aplay '' @
                ''(alsa-utils package).'')]"
      using na unfolding w1 probe_backend_events by simp
    with r na ne show ?thesis
      unfolding m_def [symmetric] by (simp add: w1)
  next
    case True
    then have av: "PYGAME_AVAILABLE e \<or> \<not> aplay_probe_raises e"
      using found probe_backend_result [of e w] by simp
    have r: "run_announcer e interval test_only fuel w = Some (Inr (), report_missing e m w2)"
      using p c True ne mm by (simp add: run_announcer_def)
    have e1: "events w1 = events w @
        (if PYGAME_AVAILABLE e then []
         else [Print ''Warning: pygame not found, trying to use aplay instead.'',
               Run [''aplay'', ''--version'']])"
      using av unfolding w1 probe_backend_events by auto
    have e2: "events w2 = events w1 @
        (if AUDIO_DIR e \<in> paths w then []
         else case makedirs_raises e of
                None \<Rightarrow> [Print (''Created audio directory: '' @ AUDIO_DIR e)]
              | Some msg \<Rightarrow> [Print (''Error creating audio directory: '' @ msg)])"
      unfolding w2 check_audio_files_events by (simp add: w1)
    have fr: "running (report_missing e m w2) = running w"
      "wall (report_missing e m w2) = wall w" "blocks (report_missing e m w2) = blocks w"
      by (simp_all add: w2 w1)
    have ev: "events (report_missing e m w2) = events w @
        (if PYGAME_AVAILABLE e then []
         else [Print ''Warning: pygame not found, trying to use aplay instead.'',
               Run [''aplay'', ''--version'']]) @
        (if AUDIO_DIR e \<in> paths w then []
         else case makedirs_raises e of
                None \<Rightarrow> [Print (''Created audio directory: '' @ AUDIO_DIR e)]
              | Some msg \<Rightarrow> [Print (''Error creating audio directory: '' @ msg)]) @
        [Print (''Missing '' @ str_int (int (length m)) @ '' audio files in '' @ AUDIO_DIR e @ '':'')] @
        map (\<lambda>file. Print (''  - '' @ file)) (take 10 m) @
        (if length m > 10
         then [Print (''  ... and '' @ str_int (int (length m) - 10) @ '' more.'')] else []) @
        [Print (CHR 0x0A # ''Please add these files to continue.'')]"
      unfolding report_missing_events e2 e1 by simp
    have nb: "\<not> (\<not> PYGAME_AVAILABLE e \<and> aplay_probe_raises e)"
      using av by blast
    show ?thesis
      unfolding m_def [symmetric]
      by (intro exI [of _ "report_missing e m w2"] exI [of _ m])
        (simp only: r fr ev nb if_False ne simp_thms)
  qed
qed

theorem missing_assets_stop_startup_witness:
  "''ekhon_somoy.wav'' \<in> set (dict_values AUDIO_FILES) \<and>
   path_join ''/a'' ''ekhon_somoy.wav'' \<notin> {''/a''} \<and>
   run_announcer
     \<lparr>AUDIO_DIR = ''/a'', PYGAME_AVAILABLE = True, aplay_probe_raises = False,
       makedirs_raises = None, mixer_init_raises = None,
       pygame_sound = (\<lambda>p. Sound_plays 1),
       aplay_raises = (\<lambda>p. None),
       strftime = (\<lambda>d. ''now''), after_block = (\<lambda>k. (\<lparr>ordinal = 738000, hour = 7, minute = 29, second = 40, microsecond = 0\<rparr>, False))\<rparr>
     30 False 0
     \<lparr>wall = \<lparr>ordinal = 738000, hour = 7, minute = 29, second = 40, microsecond = 0\<rparr>,
       running = True, paths = {''/a''}, events = [], blocks = 0\<rparr> =
   Some (Inr (),
     \<lparr>wall = \<lparr>ordinal = 738000, hour = 7, minute = 29, second = 40, microsecond = 0\<rparr>,
       running = True, paths = {''/a''}, events = [Print ''Missing 22 audio files in /a:'',
      Print ''  - ekhon_somoy.wav'',
      Print ''  - ekta.wav'',
      Print ''  - duita.wav'',
      Print ''  - tinta.wav'',
      Print ''  - charta.wav'',
      Print ''  - panchta.wav'',
      Print ''  - choyta.wav'',
      Print ''  - shatta.wav'',
      Print ''  - atta.wav'',
      Print ''  - noyta.wav'',
      Print ''  ... and 12 more.'',
      Print (CHR 0x0A # ''Please add these files to continue.'')], blocks = 0\<rparr>)"
  using missing_assets_stop_startup
     [of "\<lparr>AUDIO_DIR = ''/a'', PYGAME_AVAILABLE = True, aplay_probe_raises = False,
       makedirs_raises = None, mixer_init_raises = None,
       pygame_sound = (\<lambda>p. Sound_plays 1),
       aplay_raises = (\<lambda>p. None),
       strftime = (\<lambda>d. ''now''), after_block = (\<lambda>k. (\<lparr>ordinal = 738000, hour = 7, minute = 29, second = 40, microsecond = 0\<rparr>, False))\<rparr>"
       "\<lparr>wall = \<lparr>ordinal = 738000, hour = 7, minute = 29, second = 40, microsecond = 0\<rparr>,
       running = True, paths = {''/a''}, events = [], blocks = 0\<rparr>" 30 False 0]
  by (simp add: run_announcer_def probe_backend_def check_audio_files_def missing_in_dir_def report_missing_def
      path_join_def dict_values_def AUDIO_FILES_def put_def str_int_def str_nat.simps
      digit_char_def Let_def)

text \<open>
  With pygame not imported and \<^verbatim>\<open>aplay --version\<close> raising, in an audio directory
  that has none of the 22 files, nothing about the missing files is printed: neither a
  filename nor the count of the rest.
\<close>

theorem no_backend_prints_no_missing_list:
  "length (fst (check_audio_files
     \<lparr>AUDIO_DIR = ''/a'', PYGAME_AVAILABLE = False, aplay_probe_raises = True,
       makedirs_raises = None, mixer_init_raises = None,
       pygame_sound = (\<lambda>p. Sound_plays 1),
       aplay_raises = (\<lambda>p. None),
       strftime = (\<lambda>d. ''now''), after_block = (\<lambda>k. (\<lparr>ordinal = 738000, hour = 7, minute = 29, second = 40, microsecond = 0\<rparr>, False))\<rparr>
     \<lparr>wall = \<lparr>ordinal = 738000, hour = 7, minute = 29, second = 40, microsecond = 0\<rparr>,
       running = True, paths = {''/a''}, events = [], blocks = 0\<rparr>)) = 22 \<and>
   run_announcer
     \<lparr>AUDIO_DIR = ''/a'', PYGAME_AVAILABLE = False, aplay_probe_raises = True,
       makedirs_raises = None, mixer_init_raises = None,
       pygame_sound = (\<lambda>p. Sound_plays 1),
       aplay_raises = (\<lambda>p. None),
       strftime = (\<lambda>d. ''now''), after_block = (\<lambda>k. (\<lparr>ordinal = 738000, hour = 7, minute = 29, second = 40, microsecond = 0\<rparr>, False))\<rparr>
     30 False 0
     \<lparr>wall = \<lparr>ordinal = 738000, hour = 7, minute = 29, second = 40, microsecond = 0\<rparr>,
       running = True, paths = {''/a''}, events = [], blocks = 0\<rparr> =
   Some (Inr (),
     \<lparr>wall = \<lparr>ordinal = 738000, hour = 7, minute = 29, second = 40, microsecond = 0\<rparr>,
       running = True, paths = {''/a''}, events = [Print ''Warning: pygame not found, trying to use aplay instead.'',
      Run [''aplay'', ''--version''],
      Print ''Error: Neither pygame nor aplay is available. Cannot play audio.'',
      Print ''Please install pygame (pip install pygame) or aplay (alsa-utils package).''], blocks = 0\<rparr>)"
  by (simp add: run_announcer_def probe_backend_def check_audio_files_def missing_in_dir_def
      path_join_def dict_values_def AUDIO_FILES_def put_def Let_def)

section \<open>The wait in chunks and the flag\<close>











end
